theory Spec2Isabelle
  imports Main "HOL-Library.Word" "HOL-Library.Sublist"
begin

unbundle bit_operations_syntax

section \<open>Strings, buffers and character classes\<close>

text \<open>
  A JavaScript string is a sequence of 16-bit code units; a Node \<open>Buffer\<close> is a sequence
  of bytes. \<open>js\<close> embeds an ASCII literal of the source as a JavaScript string.
\<close>

type_synonym unit16 = "16 word"
type_synonym jsstring = "16 word list"
type_synonym byte = "8 word"
type_synonym buffer = "8 word list"

definition cu :: "char \<Rightarrow> unit16" where
  "cu c = of_nat (of_char c)"

definition js :: "string \<Rightarrow> jsstring" where
  "js s = map cu s"

text \<open>
  A character class of a regular expression: \<open>In\<close> lists the ranges of \<open>[...]\<close>,
  \<open>Out\<close> those of a negated class \<open>[^...]\<close>.
\<close>

datatype cclass = In "(unit16 \<times> unit16) list" | Out "(unit16 \<times> unit16) list"

fun in_ranges :: "(unit16 \<times> unit16) list \<Rightarrow> unit16 \<Rightarrow> bool" where
  "in_ranges [] c = False"
| "in_ranges ((lo, hi) # rs) c = ((lo \<le> c \<and> c \<le> hi) \<or> in_ranges rs c)"

fun in_class :: "cclass \<Rightarrow> unit16 \<Rightarrow> bool" where
  "in_class (In rs) c = in_ranges rs c"
| "in_class (Out rs) c = (\<not> in_ranges rs c)"

text \<open>\<open>s.replace(/k/g, rep)\<close> for a pattern \<open>k\<close> that is one character class.\<close>

definition replace_all :: "cclass \<Rightarrow> jsstring \<Rightarrow> jsstring \<Rightarrow> jsstring" where
  "replace_all k rep s = concat (map (\<lambda>c. if in_class k c then rep else [c]) s)"

section \<open>Regular expressions anchored at both ends\<close>

text \<open>
  \<open>/^r$/.test(s)\<close> decides whether the whole of \<open>s\<close> is in the language of \<open>r\<close>
  (no flags: \<open>$\<close> is the end of the input). The matcher takes derivatives.
\<close>

datatype rexp = Zero | Eps | Atom cclass | Seq rexp rexp | Alt rexp rexp | Star rexp

definition Plus :: "rexp \<Rightarrow> rexp" where
  "Plus r = Seq r (Star r)"

definition Upto2 :: "rexp \<Rightarrow> rexp" where
  "Upto2 r = Alt Eps (Alt r (Seq r r))"

fun nullable :: "rexp \<Rightarrow> bool" where
  "nullable Zero = False"
| "nullable Eps = True"
| "nullable (Atom k) = False"
| "nullable (Seq r s) = (nullable r \<and> nullable s)"
| "nullable (Alt r s) = (nullable r \<or> nullable s)"
| "nullable (Star r) = True"

fun deriv :: "unit16 \<Rightarrow> rexp \<Rightarrow> rexp" where
  "deriv c Zero = Zero"
| "deriv c Eps = Zero"
| "deriv c (Atom k) = (if in_class k c then Eps else Zero)"
| "deriv c (Seq r s) =
     (if nullable r then Alt (Seq (deriv c r) s) (deriv c s) else Seq (deriv c r) s)"
| "deriv c (Alt r s) = Alt (deriv c r) (deriv c s)"
| "deriv c (Star r) = Seq (deriv c r) (Star r)"

fun regex_test :: "rexp \<Rightarrow> jsstring \<Rightarrow> bool" where
  "regex_test r [] = nullable r"
| "regex_test r (c # cs) = regex_test (deriv c r) cs"

text \<open>The patterns of the source.\<close>

definition hex_class :: cclass where
  "hex_class = In [(cu CHR ''0'', cu CHR ''9''), (cu CHR ''a'', cu CHR ''f''),
                   (cu CHR ''A'', cu CHR ''F'')]"

definition hex_re :: rexp where
  \<comment> \<open>\<open>/^[0-9a-fA-F]+$/\<close>\<close>
  "hex_re = Plus (Atom hex_class)"

definition base64_class :: cclass where
  "base64_class = In [(cu CHR ''A'', cu CHR ''Z''), (cu CHR ''a'', cu CHR ''z''),
                      (cu CHR ''0'', cu CHR ''9''), (cu CHR ''+'', cu CHR ''+''),
                      (cu CHR ''/'', cu CHR ''/'')]"

definition base64_re :: rexp where
  \<comment> \<open>\<open>/^[A-Za-z0-9+/]*={0,2}$/\<close>\<close>
  "base64_re = Seq (Star (Atom base64_class)) (Upto2 (Atom (In [(cu CHR ''='', cu CHR ''='')])))"

definition space_class :: cclass where
  \<comment> \<open>\<open>\s\<close>: the white space and line terminators of ECMAScript\<close>
  "space_class = In [(0x09, 0x0D), (0x20, 0x20), (0xA0, 0xA0), (0x1680, 0x1680),
                     (0x2000, 0x200A), (0x2028, 0x2029), (0x202F, 0x202F),
                     (0x205F, 0x205F), (0x3000, 0x3000), (0xFEFF, 0xFEFF)]"

definition ext_strip_class :: cclass where
  \<comment> \<open>\<open>[^a-zA-Z0-9.]\<close>\<close>
  "ext_strip_class = Out [(cu CHR ''a'', cu CHR ''z''), (cu CHR ''A'', cu CHR ''Z''),
                          (cu CHR ''0'', cu CHR ''9''), (cu CHR ''.'', cu CHR ''.'')]"

section \<open>The string-to-buffer conversions of the runtime\<close>

text \<open>
  \<open>Buffer.from(s, enc)\<close> belongs to Node, not to the repository. Each conversion is
  written here as Node documents it. For a string argument none of them raises.
\<close>

definition Buffer_from_latin1 :: "jsstring \<Rightarrow> buffer" where
  \<comment> \<open>\<open>'binary'\<close> is Node's alias of \<open>'latin1'\<close>: the low byte of every code unit\<close>
  "Buffer_from_latin1 s = map ucast s"

definition Buffer_from_ascii :: "jsstring \<Rightarrow> buffer" where
  \<comment> \<open>encoding a string as \<open>'ascii'\<close> is the same as encoding it as \<open>'latin1'\<close>\<close>
  "Buffer_from_ascii s = Buffer_from_latin1 s"

definition Buffer_from_utf16le :: "jsstring \<Rightarrow> buffer" where
  \<comment> \<open>two bytes for every code unit, low byte first; \<open>'ucs2'\<close> is an alias\<close>
  "Buffer_from_utf16le s = concat (map (\<lambda>c. [ucast c, ucast (drop_bit 8 c)]) s)"

definition is_high_surrogate :: "unit16 \<Rightarrow> bool" where
  "is_high_surrogate c = (0xD800 \<le> c \<and> c \<le> 0xDBFF)"

definition is_low_surrogate :: "unit16 \<Rightarrow> bool" where
  "is_low_surrogate c = (0xDC00 \<le> c \<and> c \<le> 0xDFFF)"

definition utf8_bytes :: "nat \<Rightarrow> buffer" where
  \<comment> \<open>the UTF-8 form of one code point\<close>
  "utf8_bytes cp =
     (if cp < 0x80 then [of_nat cp]
      else if cp < 0x800 then [of_nat (0xC0 + cp div 64), of_nat (0x80 + cp mod 64)]
      else if cp < 0x10000 then
        [of_nat (0xE0 + cp div 4096), of_nat (0x80 + cp div 64 mod 64),
         of_nat (0x80 + cp mod 64)]
      else
        [of_nat (0xF0 + cp div 262144), of_nat (0x80 + cp div 4096 mod 64),
         of_nat (0x80 + cp div 64 mod 64), of_nat (0x80 + cp mod 64)])"

definition utf8_unit :: "unit16 \<Rightarrow> buffer" where
  \<comment> \<open>a code unit that stands alone; an unpaired surrogate becomes U+FFFD\<close>
  "utf8_unit c =
     (if is_high_surrogate c \<or> is_low_surrogate c then [0xEF, 0xBF, 0xBD]
      else utf8_bytes (unat c))"

fun Buffer_from_utf8 :: "jsstring \<Rightarrow> buffer" where
  "Buffer_from_utf8 [] = []"
| "Buffer_from_utf8 [c] = utf8_unit c"
| "Buffer_from_utf8 (c # d # rest) =
     (if is_high_surrogate c \<and> is_low_surrogate d then
        utf8_bytes (0x10000 + (unat c - 0xD800) * 1024 + (unat d - 0xDC00))
          @ Buffer_from_utf8 rest
      else utf8_unit c @ Buffer_from_utf8 (d # rest))"

definition unhex :: "unit16 \<Rightarrow> nat option" where
  "unhex c =
     (if cu CHR ''0'' \<le> c \<and> c \<le> cu CHR ''9'' then Some (unat c - 48)
      else if cu CHR ''a'' \<le> c \<and> c \<le> cu CHR ''f'' then Some (unat c - 87)
      else if cu CHR ''A'' \<le> c \<and> c \<le> cu CHR ''F'' then Some (unat c - 55)
      else None)"

fun Buffer_from_hex :: "jsstring \<Rightarrow> buffer" where
  \<comment> \<open>pairs of digits; decoding stops at the first pair that is not two hex digits,
      and a last digit without a partner is dropped\<close>
  "Buffer_from_hex (a # b # rest) =
     (case (unhex a, unhex b) of
        (Some x, Some y) \<Rightarrow> of_nat (16 * x + y) # Buffer_from_hex rest
      | _ \<Rightarrow> [])"
| "Buffer_from_hex _ = []"

definition unbase64 :: "unit16 \<Rightarrow> nat option" where
  \<comment> \<open>the value of a base64 character; Node reads both alphabets\<close>
  "unbase64 c =
     (if cu CHR ''A'' \<le> c \<and> c \<le> cu CHR ''Z'' then Some (unat c - 65)
      else if cu CHR ''a'' \<le> c \<and> c \<le> cu CHR ''z'' then Some (unat c - 71)
      else if cu CHR ''0'' \<le> c \<and> c \<le> cu CHR ''9'' then Some (unat c + 4)
      else if c = cu CHR ''+'' \<or> c = cu CHR ''-'' then Some 62
      else if c = cu CHR ''/'' \<or> c = cu CHR ''_'' then Some 63
      else None)"

fun pack_sextets :: "nat list \<Rightarrow> buffer" where
  "pack_sextets (a # b # c # d # rest) =
     of_nat (a * 4 + b div 16) # of_nat (b mod 16 * 16 + c div 4) # of_nat (c mod 4 * 64 + d)
       # pack_sextets rest"
| "pack_sextets [a, b, c] = [of_nat (a * 4 + b div 16), of_nat (b mod 16 * 16 + c div 4)]"
| "pack_sextets [a, b] = [of_nat (a * 4 + b div 16)]"
| "pack_sextets _ = []"

definition Buffer_from_base64 :: "jsstring \<Rightarrow> jsstring + buffer" where
  \<comment> \<open>Node's decoder is lenient: the data ends at the first \<open>=\<close>, characters outside
      the alphabets are skipped, and nothing is raised (\<open>Inl\<close> would be the message
      of a raised error)\<close>
  "Buffer_from_base64 s =
     Inr (pack_sextets (List.map_filter unbase64 (takeWhile (\<lambda>c. c \<noteq> cu CHR ''='') s)))"

section \<open>Errors and outcomes\<close>

datatype error =
    InvalidHex
  | InvalidBase64Format
  | InvalidBase64Length
  | Base64DecodingFailed jsstring
  | UnsupportedEncoding jsstring
  | EmptyPayload
  | WriteFailed jsstring

fun message :: "error \<Rightarrow> jsstring" where
  "message InvalidHex = js ''Invalid hexadecimal string''"
| "message InvalidBase64Format = js ''Invalid base64 format''"
| "message InvalidBase64Length = js ''Invalid base64 string length''"
| "message (Base64DecodingFailed m) = js ''Base64 decoding failed: '' @ m"
| "message (UnsupportedEncoding e) = js ''Unsupported encoding: '' @ e"
| "message EmptyPayload = js ''Decoded data is empty''"
| "message (WriteFailed m) = m"

text \<open>
  The object the function returns, without its constant flags and without the
  \<open>originalSize\<close> and \<open>compressionRatio\<close> statistics.
\<close>

datatype outcome =
    Success jsstring jsstring nat jsstring \<comment> \<open>\<open>fieldname\<close>, \<open>encoding\<close>, \<open>size\<close>, \<open>path\<close>\<close>
  | Failure jsstring jsstring jsstring \<comment> \<open>\<open>fieldname\<close>, \<open>encoding\<close>, \<open>error\<close>\<close>

section \<open>The file system and the clock\<close>

text \<open>
  \<open>files\<close> maps a path to the content stored there. \<open>fs.writeFileSync\<close> opens the file
  for writing, which creates or empties it, writes the bytes and closes it; it can raise
  at each step. \<open>write_error\<close> tells whether it raises for a path and a content, with
  which message, and how far it got: \<open>None\<close> when the file could not be opened, so that
  nothing changed, and \<open>Some k\<close> when the file was opened and \<open>k\<close> bytes were written
  before the error, so that the path holds the first \<open>k\<close> bytes of the content
  afterwards. \<open>path_join\<close> is Node's \<open>path.join\<close>.
\<close>

record world =
  files :: "jsstring \<rightharpoonup> buffer"
  now :: nat
  UPLOAD_DIR :: jsstring
  path_join :: "jsstring \<Rightarrow> jsstring \<Rightarrow> jsstring"
  write_error :: "jsstring \<Rightarrow> buffer \<Rightarrow> (jsstring \<times> nat option) option"

definition writeFileSync :: "world \<Rightarrow> jsstring \<Rightarrow> buffer \<Rightarrow> jsstring option \<times> world" where
  \<comment> \<open>the message of the error it raises, if any, and the world it leaves\<close>
  "writeFileSync w p d =
     (case write_error w p d of
        None \<Rightarrow> (None, w\<lparr>files := (files w)(p \<mapsto> d)\<rparr>)
      | Some (m, None) \<Rightarrow> (Some m, w)
      | Some (m, Some k) \<Rightarrow> (Some m, w\<lparr>files := (files w)(p \<mapsto> take k d)\<rparr>))"

fun decimal :: "nat \<Rightarrow> jsstring" where
  "decimal n =
     (if n < 10 then [of_nat (48 + n)] else decimal (n div 10) @ [of_nat (48 + n mod 10)])"

declare decimal.simps [simp del]

section \<open>processEncodedData\<close>

definition decode_or_retry :: "(jsstring \<Rightarrow> jsstring + buffer) \<Rightarrow> jsstring \<Rightarrow> error + buffer" where
  \<comment> \<open>the inner \<open>try\<close> of the \<open>'base64'\<close> case with its two \<open>catch\<close> blocks; \<open>from64\<close> is
      \<open>Buffer.from(_, 'base64')\<close>, whose \<open>Inl\<close> is the message of an error it raises\<close>
  "decode_or_retry from64 cleanData =
     (case from64 cleanData of
        Inr buffer \<Rightarrow> Inr buffer
      | Inl base64Error \<Rightarrow>
          (let urlSafeData =
                 replace_all (In [(cu CHR ''_'', cu CHR ''_'')]) (js ''/'')
                   (replace_all (In [(cu CHR ''-'', cu CHR ''-'')]) (js ''+'') cleanData)
           in case from64 urlSafeData of
                Inr buffer \<Rightarrow> Inr buffer
              | Inl urlSafeError \<Rightarrow> Inl (Base64DecodingFailed base64Error)))"

definition decode_base64 :: "(jsstring \<Rightarrow> jsstring + buffer) \<Rightarrow> jsstring \<Rightarrow> error + buffer" where
  \<comment> \<open>the \<open>'base64'\<close> case\<close>
  "decode_base64 from64 data =
     (let cleanData = replace_all space_class [] data in
      if \<not> regex_test base64_re cleanData then Inl InvalidBase64Format
      else if length cleanData mod 4 \<noteq> 0 then Inl InvalidBase64Length
      else decode_or_retry from64 cleanData)"

definition decode :: "jsstring \<Rightarrow> jsstring \<Rightarrow> error + buffer" where
  \<comment> \<open>the \<open>switch (encoding)\<close>\<close>
  "decode encoding data =
     (if encoding = js ''binary'' then Inr (Buffer_from_latin1 data)
      else if encoding = js ''ascii'' then Inr (Buffer_from_ascii data)
      else if encoding = js ''utf8'' \<or> encoding = js ''utf-8'' then Inr (Buffer_from_utf8 data)
      else if encoding = js ''utf-16le'' then Inr (Buffer_from_utf16le data)
      else if encoding = js ''ucs2'' then Inr (Buffer_from_utf16le data)
      else if encoding = js ''hex'' then
        (if \<not> regex_test hex_re data then Inl InvalidHex else Inr (Buffer_from_hex data))
      else if encoding = js ''base64'' then decode_base64 Buffer_from_base64 data
      else Inl (UnsupportedEncoding encoding))"

definition truthy :: "jsstring option \<Rightarrow> bool" where
  \<comment> \<open>\<open>null\<close> and the empty string are falsy\<close>
  "truthy x = (case x of None \<Rightarrow> False | Some s \<Rightarrow> s \<noteq> [])"

definition startsWith_dot :: "jsstring \<Rightarrow> bool" where
  "startsWith_dot s = (case s of [] \<Rightarrow> False | c # _ \<Rightarrow> c = cu CHR ''.'')"

definition at :: "buffer \<Rightarrow> nat \<Rightarrow> byte option" where
  \<comment> \<open>\<open>header[i]\<close>, \<open>undefined\<close> past the end\<close>
  "at b i = (if i < length b then Some (b ! i) else None)"

definition extension :: "jsstring option \<Rightarrow> jsstring \<Rightarrow> buffer \<Rightarrow> jsstring" where
  \<comment> \<open>the value of \<open>ext\<close> when the file name is built\<close>
  "extension fileExtension encoding decodedData =
     (let ext = js ''.bin'';
          ext = (if truthy fileExtension then
                   replace_all ext_strip_class []
                     (if startsWith_dot (the fileExtension) then the fileExtension
                      else js ''.'' @ the fileExtension)
                 else ext)
      in if \<not> truthy fileExtension \<and> encoding = js ''base64'' then
           (let header = take 8 decodedData in
            if at header 0 = Some 0xFF \<and> at header 1 = Some 0xD8 \<and> at header 2 = Some 0xFF
              then js ''.jpg''
            else if at header 0 = Some 0x89 \<and> at header 1 = Some 0x50 \<and> at header 2 = Some 0x4E
                    \<and> at header 3 = Some 0x47
              then js ''.png''
            else if at header 0 = Some 0x47 \<and> at header 1 = Some 0x49 \<and> at header 2 = Some 0x46
              then js ''.gif''
            else if at header 0 = Some 0x42 \<and> at header 1 = Some 0x4D
              then js ''.bmp''
            else ext)
         else ext)"

definition filepath :: "world \<Rightarrow> jsstring \<Rightarrow> jsstring \<Rightarrow> jsstring \<Rightarrow> jsstring" where
  \<comment> \<open>\<open>filename\<close> and \<open>filepath\<close>; \<open>${Date.now()}\<close> prints the clock in decimal\<close>
  "filepath w fieldname encoding ext =
     (let filename = decimal (now w) @ js ''-'' @ fieldname @ js ''-'' @ encoding @ ext
      in path_join w (UPLOAD_DIR w) filename)"

definition try_body ::
  "world \<Rightarrow> jsstring \<Rightarrow> jsstring \<Rightarrow> jsstring \<Rightarrow> jsstring option
     \<Rightarrow> error \<times> world + outcome \<times> world" where
  \<comment> \<open>the \<open>try\<close> block: \<open>Inl\<close> is an error raised inside it, with the world at that
      moment\<close>
  "try_body w data encoding fieldname fileExtension =
     (case decode encoding data of
        Inl e \<Rightarrow> Inl (e, w)
      | Inr decodedData \<Rightarrow>
          if length decodedData = 0 then Inl (EmptyPayload, w)
          else
            (let ext = extension fileExtension encoding decodedData;
                 p = filepath w fieldname encoding ext
             in case writeFileSync w p decodedData of
                  (Some m, w') \<Rightarrow> Inl (WriteFailed m, w')
                | (None, w') \<Rightarrow> Inr (Success fieldname encoding (length decodedData) p, w')))"

definition failure_text :: "jsstring \<Rightarrow> error \<Rightarrow> jsstring" where
  "failure_text encoding e = js ''Failed to process '' @ encoding @ js '' data: '' @ message e"

definition processEncodedData ::
  "world \<Rightarrow> jsstring \<Rightarrow> jsstring \<Rightarrow> jsstring \<Rightarrow> jsstring option \<Rightarrow> outcome \<times> world" where
  "processEncodedData w data encoding fieldname fileExtension =
     (case try_body w data encoding fieldname fileExtension of
        Inr r \<Rightarrow> r
      | Inl (e, w') \<Rightarrow> (Failure fieldname encoding (failure_text encoding e), w'))"

section \<open>Notions of the statements\<close>

text \<open>
  The language of a regular expression, as a relation; the matcher is proved to decide it.
\<close>

inductive in_lang :: "rexp \<Rightarrow> jsstring \<Rightarrow> bool" where
  in_Eps: "in_lang Eps []"
| in_Atom: "in_class k c \<Longrightarrow> in_lang (Atom k) [c]"
| in_Seq: "in_lang r u \<Longrightarrow> in_lang s v \<Longrightarrow> in_lang (Seq r s) (u @ v)"
| in_AltL: "in_lang r u \<Longrightarrow> in_lang (Alt r s) u"
| in_AltR: "in_lang s u \<Longrightarrow> in_lang (Alt r s) u"
| in_StarNil: "in_lang (Star r) []"
| in_StarStep: "in_lang r u \<Longrightarrow> in_lang (Star r) v \<Longrightarrow> in_lang (Star r) (u @ v)"

text \<open>
  The hexadecimal digits and their values, as a table; the bytes of an ASCII text.
\<close>

definition hex_digits :: "unit16 set" where
  "hex_digits = set (js ''0123456789abcdefABCDEF'')"

definition hex_table :: "(unit16 \<times> nat) list" where
  "hex_table = zip (js ''0123456789abcdefABCDEF'')
                   [0, 1, 2, 3, 4, 5, 6, 7, 8, 9, 10, 11, 12, 13, 14, 15, 10, 11, 12, 13, 14, 15]"

definition hex_value :: "unit16 \<Rightarrow> nat" where
  "hex_value c = (case map_of hex_table c of Some v \<Rightarrow> v | None \<Rightarrow> 0)"

fun hex_pairs :: "jsstring \<Rightarrow> buffer" where
  "hex_pairs (a # b # rest) = of_nat (16 * hex_value a + hex_value b) # hex_pairs rest"
| "hex_pairs _ = []"

definition bytes :: "string \<Rightarrow> buffer" where
  "bytes s = map (\<lambda>c. of_nat (of_char c)) s"

text \<open>
  A world in which every write succeeds, for the examples; the encoding names of the
  \<open>switch\<close>.
\<close>

definition example_world :: world where
  "example_world =
     \<lparr>files = Map.empty, now = 1700000000000, UPLOAD_DIR = js ''/srv/uploads'',
      path_join = (\<lambda>d f. d @ js ''/'' @ f), write_error = (\<lambda>p d. None)\<rparr>"

definition supported :: "jsstring set" where
  "supported = {js ''binary'', js ''ascii'', js ''utf8'', js ''utf-8'', js ''utf-16le'',
                js ''ucs2'', js ''hex'', js ''base64''}"

text \<open>
  The extension by signature, in the order of the checks; the characters that an
  extension hint keeps, and the hint with a dot in front when it has none.
\<close>

definition sniffed_extension :: "buffer \<Rightarrow> jsstring" where
  "sniffed_extension d =
     (if prefix [0xFF, 0xD8, 0xFF] d then js ''.jpg''
      else if prefix [0x89, 0x50, 0x4E, 0x47] d then js ''.png''
      else if prefix [0x47, 0x49, 0x46] d then js ''.gif''
      else if prefix [0x42, 0x4D] d then js ''.bmp''
      else js ''.bin'')"

definition ext_chars :: "unit16 set" where
  "ext_chars = set (js ''abcdefghijklmnopqrstuvwxyzABCDEFGHIJKLMNOPQRSTUVWXYZ0123456789.'')"

definition normalised_hint :: "jsstring \<Rightarrow> jsstring" where
  "normalised_hint h =
     filter (\<lambda>c. c \<in> ext_chars) (if take 1 h = js ''.'' then h else js ''.'' @ h)"

text \<open>
  Two worlds in which every write raises: on a full disk the file is created and no byte
  is written; in a directory without write permission the file is not opened.
\<close>

definition full_disk_world :: world where
  "full_disk_world =
     example_world
       \<lparr>write_error := (\<lambda>p d. Some (js ''ENOSPC: no space left on device, write'', Some 0))\<rparr>"

definition read_only_world :: world where
  "read_only_world =
     example_world
       \<lparr>write_error := (\<lambda>p d. Some (js ''EACCES: permission denied, open'', None))\<rparr>"

text \<open>
  For base64: the white space that is stripped, the standard alphabet in the order of
  its values, the shape that the validation accepts, and the decoding by the standard
  alphabet. Four characters carry 24 bits, which are three bytes; at the end, three
  characters carry 18 bits, of which the first 16 are two bytes, and two characters carry
  12 bits, of which the first 8 are one byte.
\<close>

definition whitespace :: "unit16 set" where
  "whitespace = set [0x09, 0x0A, 0x0B, 0x0C, 0x0D, 0x20, 0xA0, 0x1680, 0x2000, 0x2001, 0x2002,
                     0x2003, 0x2004, 0x2005, 0x2006, 0x2007, 0x2008, 0x2009, 0x200A, 0x2028,
                     0x2029, 0x202F, 0x205F, 0x3000, 0xFEFF]"

definition base64_chars :: jsstring where
  "base64_chars = js ''ABCDEFGHIJKLMNOPQRSTUVWXYZabcdefghijklmnopqrstuvwxyz0123456789+/''"

definition base64_shaped :: "jsstring \<Rightarrow> bool" where
  "base64_shaped s \<longleftrightarrow>
     (\<exists>body pad. s = body @ pad \<and> set body \<subseteq> set base64_chars \<and>
        (pad = [] \<or> pad = js ''='' \<or> pad = js ''==''))"

definition base64_value :: "unit16 \<Rightarrow> nat" where
  "base64_value c = (case map_of (zip base64_chars [0 ..< 64]) c of Some v \<Rightarrow> v | None \<Rightarrow> 0)"

fun bytes_of_sextets :: "nat list \<Rightarrow> buffer" where
  "bytes_of_sextets (a # b # c # d # rest) =
     (let n = ((a * 64 + b) * 64 + c) * 64 + d
      in [of_nat (n div 65536), of_nat (n div 256 mod 256), of_nat (n mod 256)])
       @ bytes_of_sextets rest"
| "bytes_of_sextets [a, b, c] =
     (let n = (a * 64 + b) * 64 + c in [of_nat (n div 1024), of_nat (n div 4 mod 256)])"
| "bytes_of_sextets [a, b] = [of_nat ((a * 64 + b) div 16)]"
| "bytes_of_sextets _ = []"

definition standard_base64 :: "jsstring \<Rightarrow> buffer" where
  "standard_base64 s =
     bytes_of_sextets (map base64_value (takeWhile (\<lambda>c. c \<noteq> cu CHR ''='') s))"

definition strip_whitespace :: "jsstring \<Rightarrow> jsstring" where
  "strip_whitespace s = filter (\<lambda>c. c \<notin> whitespace) s"

text \<open>
  The substitution of the retry, and two decoders that can raise, as other runtimes do:
  one that raises on every input and names the input in its message, and one that reads
  the standard alphabet only and raises on the characters \<open>-\<close> and \<open>_\<close>.
\<close>

definition url_safe_substitution :: "jsstring \<Rightarrow> jsstring" where
  "url_safe_substitution s =
     map (\<lambda>c. if c = cu CHR ''-'' then cu CHR ''+'' else if c = cu CHR ''_'' then cu CHR ''/'' else c) s"

definition raising_decoder :: "jsstring \<Rightarrow> jsstring + buffer" where
  "raising_decoder s = Inl (js ''Invalid base64: '' @ s)"

definition strict_decoder :: "jsstring \<Rightarrow> jsstring + buffer" where
  "strict_decoder s =
     (if cu CHR ''-'' \<in> set s \<or> cu CHR ''_'' \<in> set s then Inl (js ''Invalid character'')
      else Buffer_from_base64 s)"

text \<open>
  The other direction, \<open>buf.toString(enc)\<close> of Node, which the tests use to prepare
  their payloads: the text that stands for a buffer under an encoding.
\<close>

definition toString_latin1 :: "buffer \<Rightarrow> jsstring" where
  "toString_latin1 b = map ucast b"

definition utf16_unit :: "byte \<Rightarrow> byte \<Rightarrow> unit16" where
  "utf16_unit lo hi = ucast lo OR push_bit 8 (ucast hi)"

fun toString_utf16le :: "buffer \<Rightarrow> jsstring" where
  "toString_utf16le (lo # hi # rest) = utf16_unit lo hi # toString_utf16le rest"
| "toString_utf16le _ = []"

definition toString_hex :: "buffer \<Rightarrow> jsstring" where
  "toString_hex b =
     concat (map (\<lambda>x. [js ''0123456789abcdef'' ! (unat x div 16),
                         js ''0123456789abcdef'' ! (unat x mod 16)]) b)"

definition b64 :: "nat \<Rightarrow> unit16" where
  "b64 i = base64_chars ! i"

fun toString_base64 :: "buffer \<Rightarrow> jsstring" where
  "toString_base64 (x # y # z # rest) =
     [b64 (unat x div 4), b64 (unat x mod 4 * 16 + unat y div 16),
      b64 (unat y mod 16 * 4 + unat z div 64), b64 (unat z mod 64)] @ toString_base64 rest"
| "toString_base64 [x, y] =
     [b64 (unat x div 4), b64 (unat x mod 4 * 16 + unat y div 16), b64 (unat y mod 16 * 4),
      cu CHR ''='']"
| "toString_base64 [x] = [b64 (unat x div 4), b64 (unat x mod 4 * 16), cu CHR ''='', cu CHR ''='']"
| "toString_base64 [] = []"

text \<open>
  The text of a buffer that is well-formed UTF-8, and \<open>None\<close> for any other buffer: one
  to four bytes for a code point, no overlong form, no surrogate, nothing above U+10FFFF;
  a code point above U+FFFF becomes a surrogate pair.
\<close>

definition is_continuation :: "byte \<Rightarrow> bool" where
  "is_continuation b = (0x80 \<le> b \<and> b \<le> 0xBF)"

definition cp2 :: "byte \<Rightarrow> byte \<Rightarrow> nat" where
  "cp2 b0 b1 = (unat b0 - 0xC0) * 64 + (unat b1 - 0x80)"

definition cp3 :: "byte \<Rightarrow> byte \<Rightarrow> byte \<Rightarrow> nat" where
  "cp3 b0 b1 b2 = (unat b0 - 0xE0) * 4096 + (unat b1 - 0x80) * 64 + (unat b2 - 0x80)"

definition cp4 :: "byte \<Rightarrow> byte \<Rightarrow> byte \<Rightarrow> byte \<Rightarrow> nat" where
  "cp4 b0 b1 b2 b3 =
     (unat b0 - 0xF0) * 262144 + (unat b1 - 0x80) * 4096 + (unat b2 - 0x80) * 64 + (unat b3 - 0x80)"

fun utf8_text :: "buffer \<Rightarrow> jsstring option" where
  "utf8_text [] = Some []"
| "utf8_text (b0 # bs) =
     (if b0 < 0x80 then map_option ((#) (ucast b0)) (utf8_text bs)
      else if 0xC2 \<le> b0 \<and> b0 \<le> 0xDF then
        (case bs of
           b1 # r \<Rightarrow>
             if is_continuation b1 then map_option ((#) (of_nat (cp2 b0 b1))) (utf8_text r)
             else None
         | _ \<Rightarrow> None)
      else if 0xE0 \<le> b0 \<and> b0 \<le> 0xEF then
        (case bs of
           b1 # b2 # r \<Rightarrow>
             if is_continuation b1 \<and> is_continuation b2 \<and> 0x800 \<le> cp3 b0 b1 b2
                \<and> \<not> (0xD800 \<le> cp3 b0 b1 b2 \<and> cp3 b0 b1 b2 \<le> 0xDFFF)
             then map_option ((#) (of_nat (cp3 b0 b1 b2))) (utf8_text r)
             else None
         | _ \<Rightarrow> None)
      else if 0xF0 \<le> b0 \<and> b0 \<le> 0xF4 then
        (case bs of
           b1 # b2 # b3 # r \<Rightarrow>
             if is_continuation b1 \<and> is_continuation b2 \<and> is_continuation b3
                \<and> 0x10000 \<le> cp4 b0 b1 b2 b3 \<and> cp4 b0 b1 b2 b3 \<le> 0x10FFFF
             then map_option
                    (\<lambda>t. of_nat (0xD800 + (cp4 b0 b1 b2 b3 - 0x10000) div 1024)
                         # of_nat (0xDC00 + (cp4 b0 b1 b2 b3 - 0x10000) mod 1024) # t)
                    (utf8_text r)
             else None
         | _ \<Rightarrow> None)
      else None)"

text \<open>
  \<open>text_of encoding b\<close> is the canonical text of the buffer \<open>b\<close> under an encoding, when
  \<open>b\<close> can be written in it: any buffer under \<open>binary\<close>, \<open>hex\<close> and \<open>base64\<close>, bytes up
  to 127 under \<open>ascii\<close>, well-formed UTF-8 under \<open>utf8\<close>, an even number of bytes under
  \<open>utf-16le\<close> and \<open>ucs2\<close>.
\<close>

definition toString_ascii :: "buffer \<Rightarrow> jsstring" where
  "toString_ascii b = map (\<lambda>x. ucast (x AND 0x7F)) b"

definition text_of :: "jsstring \<Rightarrow> buffer \<Rightarrow> jsstring option" where
  "text_of encoding b =
     (if encoding = js ''binary'' then Some (toString_latin1 b)
      else if encoding = js ''ascii'' then
        (if list_all (\<lambda>x. x \<le> 0x7F) b then Some (toString_ascii b) else None)
      else if encoding = js ''utf8'' \<or> encoding = js ''utf-8'' then utf8_text b
      else if encoding = js ''utf-16le'' \<or> encoding = js ''ucs2'' then
        (if even (length b) then Some (toString_utf16le b) else None)
      else if encoding = js ''hex'' then Some (toString_hex b)
      else if encoding = js ''base64'' then Some (toString_base64 b)
      else None)"

section \<open>The matcher decides the language\<close>

inductive_simps in_lang_Zero [simp]: "in_lang Zero w"
inductive_simps in_lang_Eps [simp]: "in_lang Eps w"
inductive_simps in_lang_Atom [simp]: "in_lang (Atom k) w"
inductive_simps in_lang_Seq: "in_lang (Seq r s) w"
inductive_simps in_lang_Alt [simp]: "in_lang (Alt r s) w"

lemma nullable_in_lang: "nullable r \<longleftrightarrow> in_lang r []"
  by (induction r) (auto simp: in_lang_Seq intro: in_StarNil)

lemma star_cons_split:
  assumes "in_lang q x" and "q = Star r" and "x = c # w"
  shows "\<exists>u v. w = u @ v \<and> in_lang r (c # u) \<and> in_lang (Star r) v"
  using assms
proof (induction arbitrary: w rule: in_lang.induct)
  case (in_StarStep r' u v)
  show ?case
  proof (cases u)
    case Nil
    with in_StarStep show ?thesis by simp
  next
    case (Cons a u')
    with in_StarStep.prems have "a = c" and "w = u' @ v" by simp_all
    with in_StarStep.hyps in_StarStep.prems Cons show ?thesis by blast
  qed
qed simp_all

lemma in_lang_Star_Cons:
  "in_lang (Star r) (c # w) \<longleftrightarrow> (\<exists>u v. w = u @ v \<and> in_lang r (c # u) \<and> in_lang (Star r) v)"
proof
  assume "in_lang (Star r) (c # w)"
  then show "\<exists>u v. w = u @ v \<and> in_lang r (c # u) \<and> in_lang (Star r) v"
    by (rule star_cons_split) simp_all
next
  assume "\<exists>u v. w = u @ v \<and> in_lang r (c # u) \<and> in_lang (Star r) v"
  then obtain u v where "w = u @ v" "in_lang r (c # u)" "in_lang (Star r) v" by blast
  then show "in_lang (Star r) (c # w)"
    using in_StarStep [of r "c # u" v] by simp
qed

lemma in_lang_deriv: "in_lang (deriv c r) w \<longleftrightarrow> in_lang r (c # w)"
proof (induction r arbitrary: w)
  case (Seq r s)
  show ?case
  proof
    assume "in_lang (deriv c (Seq r s)) w"
    then consider (left) u v where "w = u @ v" "in_lang (deriv c r) u" "in_lang s v"
      | (right) "nullable r" "in_lang (deriv c s) w"
      by (auto simp: in_lang_Seq split: if_splits)
    then show "in_lang (Seq r s) (c # w)"
    proof cases
      case left
      then show ?thesis using in_Seq [of r "c # u" s v] Seq.IH by simp
    next
      case right
      then show ?thesis using in_Seq [of r "[]" s "c # w"] Seq.IH nullable_in_lang by simp
    qed
  next
    assume "in_lang (Seq r s) (c # w)"
    then obtain u v where uv: "c # w = u @ v" "in_lang r u" "in_lang s v"
      by (auto simp: in_lang_Seq)
    show "in_lang (deriv c (Seq r s)) w"
    proof (cases u)
      case Nil
      with uv Seq.IH nullable_in_lang show ?thesis by (auto simp: in_lang_Seq)
    next
      case (Cons a u')
      with uv have "in_lang (deriv c r) u'" "w = u' @ v" using Seq.IH by simp_all
      with uv show ?thesis by (auto simp: in_lang_Seq)
    qed
  qed
next
  case (Star r)
  show ?case
    by (simp add: in_lang_Star_Cons in_lang_Seq Star.IH)
qed (auto simp: in_lang_Seq)

lemma regex_test_in_lang: "regex_test r w \<longleftrightarrow> in_lang r w"
  by (induction w arbitrary: r) (simp_all add: nullable_in_lang in_lang_deriv)

lemma in_lang_Star_Atom: "in_lang (Star (Atom k)) w \<longleftrightarrow> list_all (in_class k) w"
proof (induction w)
  case Nil
  show ?case by (simp add: in_StarNil)
next
  case (Cons c w)
  show ?case by (simp add: in_lang_Star_Cons Cons.IH)
qed

lemma in_lang_Seq_Atom:
  "in_lang (Seq (Atom k) s) w \<longleftrightarrow> (\<exists>c v. w = c # v \<and> in_class k c \<and> in_lang s v)"
proof
  assume "in_lang (Seq (Atom k) s) w"
  then show "\<exists>c v. w = c # v \<and> in_class k c \<and> in_lang s v"
    by (auto simp: in_lang_Seq)
next
  assume "\<exists>c v. w = c # v \<and> in_class k c \<and> in_lang s v"
  then obtain c v where "w = c # v" "in_class k c" "in_lang s v" by blast
  then show "in_lang (Seq (Atom k) s) w"
    using in_Seq [of "Atom k" "[c]" s v] by (simp add: in_Atom)
qed

lemma in_class_single: "in_class (In [(x, x)]) c \<longleftrightarrow> c = x"
  by auto

lemma regex_test_hex_re:
  "regex_test hex_re w \<longleftrightarrow> w \<noteq> [] \<and> list_all (in_class hex_class) w"
  by (cases w)
    (simp_all add: regex_test_in_lang hex_re_def Plus_def in_lang_Seq_Atom in_lang_Star_Atom)

lemma in_lang_Upto2_Atom:
  "in_lang (Upto2 (Atom k)) w \<longleftrightarrow>
     w = [] \<or> (\<exists>a. w = [a] \<and> in_class k a) \<or> (\<exists>a b. w = [a, b] \<and> in_class k a \<and> in_class k b)"
  unfolding Upto2_def by (simp add: in_lang_Seq_Atom) blast

lemma regex_test_base64_re:
  "regex_test base64_re w \<longleftrightarrow>
     (\<exists>body pad. w = body @ pad \<and> list_all (in_class base64_class) body \<and>
        (pad = [] \<or> pad = js ''='' \<or> pad = js ''==''))"
  unfolding regex_test_in_lang base64_re_def in_lang_Seq in_lang_Star_Atom in_lang_Upto2_Atom
    in_class_single
  by (simp add: js_def)

section \<open>Hexadecimal digits\<close>

lemma in_range_word:
  fixes c :: unit16
  shows "(lo \<le> c \<and> c \<le> hi) \<longleftrightarrow> c \<in> set (map of_nat [unat lo ..< Suc (unat hi)])"
proof
  assume "lo \<le> c \<and> c \<le> hi"
  then have "unat c \<in> set [unat lo ..< Suc (unat hi)]"
    by (auto simp: word_le_nat_alt)
  then have "of_nat (unat c) \<in> set (map of_nat [unat lo ..< Suc (unat hi)] :: unit16 list)"
    by (metis image_eqI set_map)
  then show "c \<in> set (map of_nat [unat lo ..< Suc (unat hi)])" by simp
next
  assume "c \<in> set (map of_nat [unat lo ..< Suc (unat hi)])"
  then obtain n where n: "c = of_nat n" "unat lo \<le> n" "n \<le> unat hi" by auto
  have "unat hi < 2 ^ 16" using unsigned_less [of hi] by simp
  with n have "unat c = n" by (simp add: unat_of_nat)
  with n show "lo \<le> c \<and> c \<le> hi" by (simp add: word_le_nat_alt)
qed

lemma in_hex_class: "in_class hex_class c \<longleftrightarrow> c \<in> hex_digits"
  by (simp add: hex_class_def hex_digits_def in_range_word js_def cu_def upt_rec)

lemma unhex_table: "unhex c = map_of hex_table c"
  by (simp add: unhex_def hex_table_def in_range_word js_def cu_def upt_rec) 

lemma hex_table_defined: "c \<in> hex_digits \<Longrightarrow> \<exists>x. map_of hex_table c = Some x"
  by (auto simp: hex_digits_def hex_table_def js_def cu_def)

lemma Buffer_from_hex_pairs:
  "list_all (in_class hex_class) s \<Longrightarrow> Buffer_from_hex s = hex_pairs s"
proof (induction s rule: hex_pairs.induct)
  case (1 a b rest)
  then have "a \<in> hex_digits" "b \<in> hex_digits" by (simp_all add: in_hex_class)
  then obtain x y where "map_of hex_table a = Some x" "map_of hex_table b = Some y"
    using hex_table_defined by blast
  with 1 show ?case by (simp add: unhex_table hex_value_def)
qed simp_all

lemma decode_hex:
  "decode (js ''hex'') data =
     (if data \<noteq> [] \<and> set data \<subseteq> hex_digits then Inr (hex_pairs data) else Inl InvalidHex)"
proof -
  have "list_all (in_class hex_class) data \<longleftrightarrow> set data \<subseteq> hex_digits"
    by (auto simp: list_all_iff in_hex_class)
  then show ?thesis
    using Buffer_from_hex_pairs [of data]
    by (simp add: decode_def regex_test_hex_re js_def cu_def)
qed

lemma length_hex_pairs: "length (hex_pairs s) = length s div 2"
  by (induction s rule: hex_pairs.induct) simp_all

lemma hex_pairs_odd: "odd (length s) \<Longrightarrow> hex_pairs s = hex_pairs (butlast s)"
  by (induction s rule: hex_pairs.induct) auto

section \<open>The paths through the function\<close>

lemma process_decode_error:
  "decode encoding data = Inl e \<Longrightarrow>
   processEncodedData w data encoding fieldname fileExtension
     = (Failure fieldname encoding (failure_text encoding e), w)"
  by (simp add: processEncodedData_def try_body_def)

lemma process_empty:
  "decode encoding data = Inr [] \<Longrightarrow>
   processEncodedData w data encoding fieldname fileExtension
     = (Failure fieldname encoding (failure_text encoding EmptyPayload), w)"
  by (simp add: processEncodedData_def try_body_def)

lemma process_written:
  assumes "decode encoding data = Inr d" and "d \<noteq> []"
    and "write_error w (filepath w fieldname encoding (extension fileExtension encoding d)) d = None"
  shows "processEncodedData w data encoding fieldname fileExtension
           = (Success fieldname encoding (length d)
                (filepath w fieldname encoding (extension fileExtension encoding d)),
              w\<lparr>files := (files w)
                 (filepath w fieldname encoding (extension fileExtension encoding d) \<mapsto> d)\<rparr>)"
  using assms by (simp add: processEncodedData_def try_body_def writeFileSync_def Let_def)

lemma process_write_error:
  assumes "decode encoding data = Inr d" and "d \<noteq> []"
    and "write_error w (filepath w fieldname encoding (extension fileExtension encoding d)) d
           = Some (m, left)"
  shows "processEncodedData w data encoding fieldname fileExtension
           = (Failure fieldname encoding (failure_text encoding (WriteFailed m)),
              case left of
                None \<Rightarrow> w
              | Some k \<Rightarrow>
                  w\<lparr>files := (files w)
                     (filepath w fieldname encoding (extension fileExtension encoding d)
                        \<mapsto> take k d)\<rparr>)"
  using assms
  by (simp add: processEncodedData_def try_body_def writeFileSync_def Let_def
      split: option.splits)

lemma failure_text_hex:
  "failure_text (js ''hex'') InvalidHex = js ''Failed to process hex data: Invalid hexadecimal string''"
  "failure_text (js ''hex'') EmptyPayload = js ''Failed to process hex data: Decoded data is empty''"
  by (simp_all add: failure_text_def js_def)

lemma example_filepath:
  "filepath example_world fieldname encoding ext
     = js ''/srv/uploads/1700000000000-'' @ fieldname @ js ''-'' @ encoding @ ext"
  by (simp add: filepath_def example_world_def decimal.simps js_def cu_def)

section \<open>Hexadecimal payloads\<close>

text \<open>
  C3. Under the \<open>hex\<close> encoding, a payload that is empty or has a character that is not
  a hex digit (one that does not match \<open>^[0-9a-fA-F]+$\<close>) is refused with the message
  \<open>Invalid hexadecimal string\<close> and nothing is written; any other payload is decoded two
  digits to a byte. \<open>zz\<close> is refused, and \<open>48656c6c6f\<close> decodes to the five bytes of
  \<open>Hello\<close>, which are stored and reported with size 5 when the write succeeds.
\<close>

theorem hex_decoding:
  "(\<not> (data \<noteq> [] \<and> set data \<subseteq> hex_digits) \<longrightarrow>
      processEncodedData w data (js ''hex'') fieldname fileExtension
        = (Failure fieldname (js ''hex'')
             (js ''Failed to process hex data: Invalid hexadecimal string''), w))
   \<and> (data \<noteq> [] \<and> set data \<subseteq> hex_digits \<longrightarrow> decode (js ''hex'') data = Inr (hex_pairs data))
   \<and> processEncodedData w (js ''zz'') (js ''hex'') fieldname fileExtension
        = (Failure fieldname (js ''hex'')
             (js ''Failed to process hex data: Invalid hexadecimal string''), w)
   \<and> decode (js ''hex'') (js ''48656c6c6f'') = Inr (bytes ''Hello'')
   \<and> (write_error w
         (filepath w fieldname (js ''hex'') (extension fileExtension (js ''hex'') (bytes ''Hello'')))
         (bytes ''Hello'') = None \<longrightarrow>
      processEncodedData w (js ''48656c6c6f'') (js ''hex'') fieldname fileExtension
        = (Success fieldname (js ''hex'') 5
             (filepath w fieldname (js ''hex'') (extension fileExtension (js ''hex'') (bytes ''Hello''))),
           w\<lparr>files := (files w)
             (filepath w fieldname (js ''hex'') (extension fileExtension (js ''hex'') (bytes ''Hello''))
                \<mapsto> bytes ''Hello'')\<rparr>))"
proof -
  have zz: "decode (js ''hex'') (js ''zz'') = Inl InvalidHex"
    by (simp add: decode_hex) (simp add: hex_digits_def js_def cu_def)
  have hello: "decode (js ''hex'') (js ''48656c6c6f'') = Inr (bytes ''Hello'')"
    by (simp add: decode_hex)
      (simp add: hex_digits_def js_def cu_def hex_value_def hex_table_def bytes_def)
  have ne: "bytes ''Hello'' \<noteq> []" and len: "length (bytes ''Hello'') = 5"
    by (simp_all add: bytes_def)
  have 1: "\<not> (data \<noteq> [] \<and> set data \<subseteq> hex_digits) \<longrightarrow>
      processEncodedData w data (js ''hex'') fieldname fileExtension
        = (Failure fieldname (js ''hex'')
             (js ''Failed to process hex data: Invalid hexadecimal string''), w)"
    using process_decode_error [of "js ''hex''" data InvalidHex w fieldname fileExtension]
    by (simp add: decode_hex failure_text_hex)
  have 3: "processEncodedData w (js ''zz'') (js ''hex'') fieldname fileExtension
        = (Failure fieldname (js ''hex'')
             (js ''Failed to process hex data: Invalid hexadecimal string''), w)"
    using process_decode_error [OF zz] by (simp add: failure_text_hex)
  show ?thesis
    using 1 3 hello process_written [OF hello ne, of w fieldname fileExtension] len
    by (simp add: decode_hex)
qed

theorem hex_decoding_witness:
  "\<not> (js ''4g'' \<noteq> [] \<and> set (js ''4g'') \<subseteq> hex_digits)
   \<and> processEncodedData example_world (js ''4g'') (js ''hex'') (js ''file1'') None
       = (Failure (js ''file1'') (js ''hex'')
            (js ''Failed to process hex data: Invalid hexadecimal string''), example_world)
   \<and> (js ''4A7f'' \<noteq> [] \<and> set (js ''4A7f'') \<subseteq> hex_digits)
   \<and> decode (js ''hex'') (js ''4A7f'') = Inr [0x4A, 0x7F]
   \<and> write_error example_world (js ''/srv/uploads/1700000000000-file1-hex.txt'') (bytes ''Hello'') = None
   \<and> processEncodedData example_world (js ''48656c6c6f'') (js ''hex'') (js ''file1'') (Some (js ''txt''))
       = (Success (js ''file1'') (js ''hex'') 5 (js ''/srv/uploads/1700000000000-file1-hex.txt''),
          example_world\<lparr>files := (files example_world)
             (js ''/srv/uploads/1700000000000-file1-hex.txt'' \<mapsto> bytes ''Hello'')\<rparr>)"
proof -
  have a: "\<not> (js ''4g'' \<noteq> [] \<and> set (js ''4g'') \<subseteq> hex_digits)"
    by (simp add: hex_digits_def js_def cu_def)
  have b: "js ''4A7f'' \<noteq> [] \<and> set (js ''4A7f'') \<subseteq> hex_digits"
    by (simp add: hex_digits_def js_def cu_def)
  have c: "hex_pairs (js ''4A7f'') = [0x4A, 0x7F]"
    by (simp add: js_def cu_def hex_value_def hex_table_def)
  have d: "filepath example_world (js ''file1'') (js ''hex'')
             (extension (Some (js ''txt'')) (js ''hex'') (bytes ''Hello''))
           = js ''/srv/uploads/1700000000000-file1-hex.txt''"
    by (simp add: example_filepath)
      (simp add: extension_def truthy_def startsWith_dot_def
        replace_all_def ext_strip_class_def js_def cu_def)
  have e: "write_error example_world p x = None" for p x
    by (simp add: example_world_def)
  show ?thesis
    using hex_decoding [of "js ''4g''" example_world "js ''file1''" None]
      hex_decoding [of "js ''4A7f''" example_world "js ''file1''" None]
      hex_decoding [of "[]" example_world "js ''file1''" "Some (js ''txt'')"]
      a b c d e
    by simp
qed

section \<open>Odd-length hexadecimal payloads\<close>

text \<open>
  C10. Under the \<open>hex\<close> encoding, a payload of hex digits of odd length passes the
  validation, and its last digit is ignored: the decoded bytes are those of the first
  \<open>n - 1\<close> digits, \<open>n div 2\<close> of them. A payload of one hex digit decodes to no byte
  and is refused with the message \<open>Decoded data is empty\<close>, not as invalid hex.
\<close>

theorem hex_odd_length:
  "odd (length data) \<and> set data \<subseteq> hex_digits \<longrightarrow>
     regex_test hex_re data
     \<and> decode (js ''hex'') data = Inr (hex_pairs (butlast data))
     \<and> length (hex_pairs (butlast data)) = length data div 2
     \<and> (length data = 1 \<longrightarrow>
          processEncodedData w data (js ''hex'') fieldname fileExtension
            = (Failure fieldname (js ''hex'')
                 (js ''Failed to process hex data: Decoded data is empty''), w))"
proof
  assume a: "odd (length data) \<and> set data \<subseteq> hex_digits"
  then have ne: "data \<noteq> []" by auto
  with a have t: "regex_test hex_re data"
    by (auto simp: regex_test_hex_re list_all_iff in_hex_class)
  from a ne have d: "decode (js ''hex'') data = Inr (hex_pairs (butlast data))"
    by (simp add: decode_hex hex_pairs_odd)
  have l: "length (hex_pairs (butlast data)) = length data div 2"
    using a by (simp add: hex_pairs_odd [symmetric] length_hex_pairs)
  have e: "processEncodedData w data (js ''hex'') fieldname fileExtension
            = (Failure fieldname (js ''hex'')
                 (js ''Failed to process hex data: Decoded data is empty''), w)"
    if "length data = 1"
  proof -
    from that l have "hex_pairs (butlast data) = []" by simp
    with d have "decode (js ''hex'') data = Inr []" by simp
    from process_empty [OF this] show ?thesis by (simp add: failure_text_hex)
  qed
  from t d l e show "regex_test hex_re data
     \<and> decode (js ''hex'') data = Inr (hex_pairs (butlast data))
     \<and> length (hex_pairs (butlast data)) = length data div 2
     \<and> (length data = 1 \<longrightarrow>
          processEncodedData w data (js ''hex'') fieldname fileExtension
            = (Failure fieldname (js ''hex'')
                 (js ''Failed to process hex data: Decoded data is empty''), w))"
    by simp
qed

theorem hex_odd_length_witness:
  "odd (length (js ''4A7'')) \<and> set (js ''4A7'') \<subseteq> hex_digits
   \<and> decode (js ''hex'') (js ''4A7'') = Inr [0x4A]
   \<and> length (js ''f'') = 1 \<and> set (js ''f'') \<subseteq> hex_digits
   \<and> processEncodedData example_world (js ''f'') (js ''hex'') (js ''file1'') None
       = (Failure (js ''file1'') (js ''hex'')
            (js ''Failed to process hex data: Decoded data is empty''), example_world)"
proof -
  have a: "odd (length (js ''4A7'')) \<and> set (js ''4A7'') \<subseteq> hex_digits"
    by (simp add: hex_digits_def js_def cu_def)
  have b: "odd (length (js ''f'')) \<and> set (js ''f'') \<subseteq> hex_digits" "length (js ''f'') = 1"
    by (simp_all add: hex_digits_def js_def cu_def)
  have c: "hex_pairs (butlast (js ''4A7'')) = [0x4A]"
    by (simp add: js_def cu_def hex_value_def hex_table_def)
  show ?thesis
    using hex_odd_length [of "js ''4A7''" example_world "js ''file1''" None]
      hex_odd_length [of "js ''f''" example_world "js ''file1''" None] a b c
    by simp
qed

section \<open>The empty payload\<close>

lemma failure_text_empty:
  "failure_text encoding EmptyPayload
     = js ''Failed to process '' @ encoding @ js '' data: Decoded data is empty''"
  by (simp add: failure_text_def js_def)

lemma decode_empty_base64: "decode (js ''base64'') [] = Inr []"
  by (simp add: decode_def decode_base64_def decode_or_retry_def replace_all_def base64_re_def
      Upto2_def Buffer_from_base64_def List.map_filter_simps js_def cu_def)

lemma decode_empty_others:
  "encoding \<in> {js ''binary'', js ''ascii'', js ''utf8'', js ''utf-8'', js ''utf-16le'', js ''ucs2''}
   \<Longrightarrow> decode encoding [] = Inr []"
  by (auto simp: decode_def Buffer_from_latin1_def Buffer_from_ascii_def
      Buffer_from_utf16le_def js_def cu_def)

text \<open>
  C1, as amended. With the empty string as payload, every encoding but \<open>hex\<close> gives a
  failure with the message \<open>Decoded data is empty\<close>; under \<open>hex\<close> the empty string
  fails the validation first, and the failure carries \<open>Invalid hexadecimal string\<close>. In
  both cases nothing is written. The counterexample is the \<open>hex\<close> case.
\<close>

theorem empty_payload:
  "(encoding \<in> {js ''binary'', js ''ascii'', js ''utf8'', js ''utf-8'', js ''utf-16le'',
                 js ''ucs2'', js ''base64''} \<longrightarrow>
      processEncodedData w [] encoding fieldname fileExtension
        = (Failure fieldname encoding
             (js ''Failed to process '' @ encoding @ js '' data: Decoded data is empty''), w))
   \<and> processEncodedData w [] (js ''hex'') fieldname fileExtension
        = (Failure fieldname (js ''hex'')
             (js ''Failed to process hex data: Invalid hexadecimal string''), w)"
proof -
  have "decode encoding [] = Inr []"
    if "encoding \<in> {js ''binary'', js ''ascii'', js ''utf8'', js ''utf-8'', js ''utf-16le'',
                 js ''ucs2'', js ''base64''}"
    using that decode_empty_base64 decode_empty_others [of encoding] by blast
  then have 1: "encoding \<in> {js ''binary'', js ''ascii'', js ''utf8'', js ''utf-8'', js ''utf-16le'',
                 js ''ucs2'', js ''base64''} \<longrightarrow>
      processEncodedData w [] encoding fieldname fileExtension
        = (Failure fieldname encoding
             (js ''Failed to process '' @ encoding @ js '' data: Decoded data is empty''), w)"
    using process_empty [of encoding "[]" w fieldname fileExtension]
    by (simp only: failure_text_empty) blast
  have "decode (js ''hex'') [] = Inl InvalidHex" by (simp add: decode_hex)
  from process_decode_error [OF this] 1 show ?thesis by (simp add: failure_text_hex)
qed

theorem empty_payload_witness:
  "js ''utf8'' \<in> {js ''binary'', js ''ascii'', js ''utf8'', js ''utf-8'', js ''utf-16le'',
                 js ''ucs2'', js ''base64''}
   \<and> processEncodedData example_world [] (js ''utf8'') (js ''file1'') (Some (js ''txt''))
        = (Failure (js ''file1'') (js ''utf8'')
             (js ''Failed to process utf8 data: Decoded data is empty''), example_world)"
  using empty_payload [of "js ''utf8''" example_world "js ''file1''" "Some (js ''txt'')"]
  by (simp add: js_def)

theorem empty_payload_hex_counterexample:
  "fst (processEncodedData example_world [] (js ''hex'') (js ''file1'') None)
     \<noteq> Failure (js ''file1'') (js ''hex'')
          (js ''Failed to process hex data: Decoded data is empty'')"
proof -
  have "decode (js ''hex'') [] = Inl InvalidHex" by (simp add: decode_hex)
  from process_decode_error [OF this, of example_world "js ''file1''" None]
  show ?thesis by (simp add: failure_text_hex) (simp add: js_def cu_def)
qed

section \<open>Unknown encodings\<close>

text \<open>
  C4. An encoding name that is none of the names of the \<open>switch\<close> gives a failure with
  the message \<open>Unsupported encoding: \<close> followed by the name, whatever the payload is
  (the payload is not looked at), and nothing is written.
\<close>

theorem unsupported_encoding:
  "encoding \<notin> supported \<longrightarrow>
     decode encoding data = Inl (UnsupportedEncoding encoding)
     \<and> processEncodedData w data encoding fieldname fileExtension
        = (Failure fieldname encoding
             (js ''Failed to process '' @ encoding @ js '' data: Unsupported encoding: '' @ encoding),
           w)"
proof
  assume "encoding \<notin> supported"
  then have d: "decode encoding data = Inl (UnsupportedEncoding encoding)"
    by (simp add: decode_def supported_def)
  from process_decode_error [OF d] d
  show "decode encoding data = Inl (UnsupportedEncoding encoding)
     \<and> processEncodedData w data encoding fieldname fileExtension
        = (Failure fieldname encoding
             (js ''Failed to process '' @ encoding @ js '' data: Unsupported encoding: '' @ encoding),
           w)"
    by (simp add: failure_text_def js_def)
qed

theorem unsupported_encoding_witness:
  "js ''rot13'' \<notin> supported
   \<and> processEncodedData example_world (js ''48656c6c6f'') (js ''rot13'') (js ''file1'') None
        = (Failure (js ''file1'') (js ''rot13'')
             (js ''Failed to process rot13 data: Unsupported encoding: rot13''), example_world)"
proof -
  have "js ''rot13'' \<notin> supported" by (simp add: supported_def js_def cu_def)
  with unsupported_encoding [of "js ''rot13''" "js ''48656c6c6f''" example_world "js ''file1''" None]
  show ?thesis by (simp add: js_def)
qed

section \<open>The extension of the stored file\<close>

lemma list4_cases:
  obtains "xs = []" | a where "xs = [a]" | a b where "xs = [a, b]"
    | a b c where "xs = [a, b, c]" | a b c d r where "xs = a # b # c # d # r"
  by (metis neq_Nil_conv)

lemma at_header2:
  "at (take 8 d) 0 = Some a \<and> at (take 8 d) 1 = Some b \<longleftrightarrow> prefix [a, b] d"
  by (cases d rule: list4_cases) (auto simp: at_def)

lemma at_header3:
  "at (take 8 d) 0 = Some a \<and> at (take 8 d) 1 = Some b \<and> at (take 8 d) 2 = Some c
     \<longleftrightarrow> prefix [a, b, c] d"
  by (cases d rule: list4_cases) (auto simp: at_def)

lemma at_header4:
  "at (take 8 d) 0 = Some a \<and> at (take 8 d) 1 = Some b \<and> at (take 8 d) 2 = Some c
     \<and> at (take 8 d) 3 = Some e
     \<longleftrightarrow> prefix [a, b, c, e] d"
  by (cases d rule: list4_cases) (auto simp: at_def)

lemma extension_sniffed:
  "\<not> truthy fileExtension \<Longrightarrow> extension fileExtension (js ''base64'') d = sniffed_extension d"
  unfolding extension_def sniffed_extension_def Let_def at_header2 at_header3 at_header4
  by simp

lemma extension_default:
  "\<not> truthy fileExtension \<Longrightarrow> encoding \<noteq> js ''base64'' \<Longrightarrow>
   extension fileExtension encoding d = js ''.bin''"
  by (simp add: extension_def)

lemma in_ext_strip_class: "in_class ext_strip_class c \<longleftrightarrow> c \<notin> ext_chars"
  by (simp add: ext_strip_class_def ext_chars_def in_range_word js_def cu_def upt_rec)

lemma replace_all_delete: "replace_all k [] s = filter (\<lambda>c. \<not> in_class k c) s"
  by (induction s) (simp_all add: replace_all_def)

lemma extension_hint:
  "h \<noteq> [] \<Longrightarrow> extension (Some h) encoding d = normalised_hint h"
  by (cases h)
    (simp_all add: extension_def truthy_def startsWith_dot_def normalised_hint_def
      replace_all_delete in_ext_strip_class js_def)

lemma decode_jpeg_example:
  "decode (js ''base64'') (js ''/9j/4A=='') = Inr [0xFF, 0xD8, 0xFF, 0xE0]"
  by (simp add: decode_def decode_base64_def decode_or_retry_def replace_all_def space_class_def
      base64_re_def base64_class_def Upto2_def Buffer_from_base64_def List.map_filter_simps
      unbase64_def js_def cu_def)

text \<open>
  C8. When no extension hint is given (\<open>null\<close> or the empty string) and the encoding is
  \<open>base64\<close>, the extension is found from the first decoded bytes: \<open>FF D8 FF\<close> gives
  \<open>.jpg\<close>, \<open>89 50 4E 47\<close> gives \<open>.png\<close>, \<open>47 49 46\<close> gives \<open>.gif\<close>, \<open>42 4D\<close> gives
  \<open>.bmp\<close>, checked in this order, and a buffer that starts with none of them keeps
  \<open>.bin\<close>. The file is stored under the name that ends with this extension.
\<close>

theorem signature_sniffing:
  "\<not> truthy fileExtension \<longrightarrow>
     extension fileExtension (js ''base64'') d = sniffed_extension d
     \<and> (prefix [0xFF, 0xD8, 0xFF] d \<longrightarrow> extension fileExtension (js ''base64'') d = js ''.jpg'')
     \<and> (prefix [0x89, 0x50, 0x4E, 0x47] d \<longrightarrow> extension fileExtension (js ''base64'') d = js ''.png'')
     \<and> (prefix [0x47, 0x49, 0x46] d \<longrightarrow> extension fileExtension (js ''base64'') d = js ''.gif'')
     \<and> (prefix [0x42, 0x4D] d \<longrightarrow> extension fileExtension (js ''base64'') d = js ''.bmp'')
     \<and> (\<not> prefix [0xFF, 0xD8, 0xFF] d \<and> \<not> prefix [0x89, 0x50, 0x4E, 0x47] d
          \<and> \<not> prefix [0x47, 0x49, 0x46] d \<and> \<not> prefix [0x42, 0x4D] d \<longrightarrow>
        extension fileExtension (js ''base64'') d = js ''.bin'')
     \<and> (decode (js ''base64'') data = Inr d \<and> d \<noteq> []
          \<and> write_error w (filepath w fieldname (js ''base64'') (sniffed_extension d)) d = None \<longrightarrow>
        processEncodedData w data (js ''base64'') fieldname fileExtension
          = (Success fieldname (js ''base64'') (length d)
               (filepath w fieldname (js ''base64'') (sniffed_extension d)),
             w\<lparr>files := (files w)
                (filepath w fieldname (js ''base64'') (sniffed_extension d) \<mapsto> d)\<rparr>))"
proof
  assume f: "\<not> truthy fileExtension"
  have e: "extension fileExtension (js ''base64'') d = sniffed_extension d"
    by (rule extension_sniffed [OF f])
  have jpg: "prefix [0xFF, 0xD8, 0xFF] d \<longrightarrow> sniffed_extension d = js ''.jpg''"
    by (simp add: sniffed_extension_def)
  have png: "prefix [0x89, 0x50, 0x4E, 0x47] d \<longrightarrow> sniffed_extension d = js ''.png''"
    by (auto simp: sniffed_extension_def prefix_def)
  have gif: "prefix [0x47, 0x49, 0x46] d \<longrightarrow> sniffed_extension d = js ''.gif''"
    by (auto simp: sniffed_extension_def prefix_def)
  have bmp: "prefix [0x42, 0x4D] d \<longrightarrow> sniffed_extension d = js ''.bmp''"
    by (auto simp: sniffed_extension_def prefix_def)
  have bin: "\<not> prefix [0xFF, 0xD8, 0xFF] d \<and> \<not> prefix [0x89, 0x50, 0x4E, 0x47] d
          \<and> \<not> prefix [0x47, 0x49, 0x46] d \<and> \<not> prefix [0x42, 0x4D] d \<longrightarrow>
        sniffed_extension d = js ''.bin''"
    by (simp add: sniffed_extension_def)
  have run: "decode (js ''base64'') data = Inr d \<and> d \<noteq> []
          \<and> write_error w (filepath w fieldname (js ''base64'') (sniffed_extension d)) d = None \<longrightarrow>
        processEncodedData w data (js ''base64'') fieldname fileExtension
          = (Success fieldname (js ''base64'') (length d)
               (filepath w fieldname (js ''base64'') (sniffed_extension d)),
             w\<lparr>files := (files w)
                (filepath w fieldname (js ''base64'') (sniffed_extension d) \<mapsto> d)\<rparr>)"
    using process_written [of "js ''base64''" data d w fieldname fileExtension]
    by (simp only: e) blast
  from e jpg png gif bmp bin run
  show "extension fileExtension (js ''base64'') d = sniffed_extension d
     \<and> (prefix [0xFF, 0xD8, 0xFF] d \<longrightarrow> extension fileExtension (js ''base64'') d = js ''.jpg'')
     \<and> (prefix [0x89, 0x50, 0x4E, 0x47] d \<longrightarrow> extension fileExtension (js ''base64'') d = js ''.png'')
     \<and> (prefix [0x47, 0x49, 0x46] d \<longrightarrow> extension fileExtension (js ''base64'') d = js ''.gif'')
     \<and> (prefix [0x42, 0x4D] d \<longrightarrow> extension fileExtension (js ''base64'') d = js ''.bmp'')
     \<and> (\<not> prefix [0xFF, 0xD8, 0xFF] d \<and> \<not> prefix [0x89, 0x50, 0x4E, 0x47] d
          \<and> \<not> prefix [0x47, 0x49, 0x46] d \<and> \<not> prefix [0x42, 0x4D] d \<longrightarrow>
        extension fileExtension (js ''base64'') d = js ''.bin'')
     \<and> (decode (js ''base64'') data = Inr d \<and> d \<noteq> []
          \<and> write_error w (filepath w fieldname (js ''base64'') (sniffed_extension d)) d = None \<longrightarrow>
        processEncodedData w data (js ''base64'') fieldname fileExtension
          = (Success fieldname (js ''base64'') (length d)
               (filepath w fieldname (js ''base64'') (sniffed_extension d)),
             w\<lparr>files := (files w)
                (filepath w fieldname (js ''base64'') (sniffed_extension d) \<mapsto> d)\<rparr>))"
    by simp
qed

theorem signature_sniffing_witness:
  "\<not> truthy None
   \<and> prefix [0xFF, 0xD8, 0xFF] [0xFF, 0xD8, 0xFF, 0xE0 :: byte]
   \<and> decode (js ''base64'') (js ''/9j/4A=='') = Inr [0xFF, 0xD8, 0xFF, 0xE0]
   \<and> processEncodedData example_world (js ''/9j/4A=='') (js ''base64'') (js ''file1'') None
       = (Success (js ''file1'') (js ''base64'') 4 (js ''/srv/uploads/1700000000000-file1-base64.jpg''),
          example_world\<lparr>files := (files example_world)
            (js ''/srv/uploads/1700000000000-file1-base64.jpg'' \<mapsto> [0xFF, 0xD8, 0xFF, 0xE0])\<rparr>)
   \<and> \<not> prefix [0xFF, 0xD8, 0xFF] (bytes ''Hello'') \<and> \<not> prefix [0x89, 0x50, 0x4E, 0x47] (bytes ''Hello'')
   \<and> \<not> prefix [0x47, 0x49, 0x46] (bytes ''Hello'') \<and> \<not> prefix [0x42, 0x4D] (bytes ''Hello'')
   \<and> extension None (js ''base64'') (bytes ''Hello'') = js ''.bin''
   \<and> prefix [0x89, 0x50, 0x4E, 0x47] [0x89, 0x50, 0x4E, 0x47, 0x0D :: byte]
   \<and> extension (Some []) (js ''base64'') [0x89, 0x50, 0x4E, 0x47, 0x0D] = js ''.png''
   \<and> prefix [0x47, 0x49, 0x46] (bytes ''GIF89a'')
   \<and> extension None (js ''base64'') (bytes ''GIF89a'') = js ''.gif''
   \<and> prefix [0x42, 0x4D] (bytes ''BM'')
   \<and> extension None (js ''base64'') (bytes ''BM'') = js ''.bmp''"
proof -
  have t: "\<not> truthy None" "\<not> truthy (Some [])" by (simp_all add: truthy_def)
  have s: "sniffed_extension [0xFF, 0xD8, 0xFF, 0xE0] = js ''.jpg''"
    by (simp add: sniffed_extension_def)
  have p: "filepath example_world (js ''file1'') (js ''base64'') (js ''.jpg'')
             = js ''/srv/uploads/1700000000000-file1-base64.jpg''"
    by (simp add: example_filepath) (simp add: js_def)
  have n4: "Suc (Suc (Suc (Suc 0))) = 4" by simp
  have w: "write_error example_world q x = None" for q x
    by (simp add: example_world_def)
  have b: "\<not> prefix [0xFF, 0xD8, 0xFF] (bytes ''Hello'') \<and> \<not> prefix [0x89, 0x50, 0x4E, 0x47] (bytes ''Hello'')
     \<and> \<not> prefix [0x47, 0x49, 0x46] (bytes ''Hello'') \<and> \<not> prefix [0x42, 0x4D] (bytes ''Hello'')"
    "prefix [0x47, 0x49, 0x46] (bytes ''GIF89a'')" "prefix [0x42, 0x4D] (bytes ''BM'')"
    by (simp_all add: bytes_def)
  have pp: "prefix [0x89, 0x50, 0x4E, 0x47] [0x89, 0x50, 0x4E, 0x47, 0x0D :: byte]" by simp
  have jpg: "processEncodedData example_world (js ''/9j/4A=='') (js ''base64'') (js ''file1'') None
       = (Success (js ''file1'') (js ''base64'') 4 (js ''/srv/uploads/1700000000000-file1-base64.jpg''),
          example_world\<lparr>files := (files example_world)
            (js ''/srv/uploads/1700000000000-file1-base64.jpg'' \<mapsto> [0xFF, 0xD8, 0xFF, 0xE0])\<rparr>)"
    using signature_sniffing [of None "[0xFF, 0xD8, 0xFF, 0xE0]" "js ''/9j/4A==''" example_world "js ''file1''"]
      t s p w decode_jpeg_example
    by simp
  have bin: "extension None (js ''base64'') (bytes ''Hello'') = js ''.bin''"
    using signature_sniffing [of None "bytes ''Hello''" "[]" example_world "[]"] t b by blast
  have png: "extension (Some []) (js ''base64'') [0x89, 0x50, 0x4E, 0x47, 0x0D] = js ''.png''"
    using signature_sniffing [of "Some []" "[0x89, 0x50, 0x4E, 0x47, 0x0D]" "[]" example_world "[]"] t pp
    by blast
  have gif: "extension None (js ''base64'') (bytes ''GIF89a'') = js ''.gif''"
    using signature_sniffing [of None "bytes ''GIF89a''" "[]" example_world "[]"] t b by blast
  have bmp: "extension None (js ''base64'') (bytes ''BM'') = js ''.bmp''"
    using signature_sniffing [of None "bytes ''BM''" "[]" example_world "[]"] t b by blast
  from t b jpg bin png gif bmp decode_jpeg_example show ?thesis by simp
qed

lemma normalised_hint_dot: "take 1 (normalised_hint h) = js ''.''"
proof (cases "take 1 h = js ''.''")
  case True
  then obtain r where "h = cu CHR ''.'' # r" by (cases h) (simp_all add: js_def)
  then show ?thesis by (simp add: normalised_hint_def ext_chars_def js_def)
next
  case False
  then show ?thesis by (simp add: normalised_hint_def ext_chars_def js_def)
qed

text \<open>
  C9, as amended. When the extension hint is present (a non-empty string), under every
  encoding the extension of the stored file is the hint, with one \<open>.\<close> put in front
  when the hint does not start with one, and with every character outside
  \<open>[A-Za-z0-9.]\<close> removed. It starts with \<open>.\<close> and has only characters of that class.
  Neither the encoding nor the decoded bytes change it: the hint wins over the
  signatures and over \<open>.bin\<close>. Dots after the first are kept, so the hint \<open>..txt\<close> gives
  \<open>..txt\<close>: the counterexample to a single leading dot.
\<close>

theorem hint_extension:
  "h \<noteq> [] \<longrightarrow>
     extension (Some h) encoding d = normalised_hint h
     \<and> take 1 (extension (Some h) encoding d) = js ''.''
     \<and> set (extension (Some h) encoding d) \<subseteq> ext_chars
     \<and> (decode encoding data = Inr d \<and> d \<noteq> []
          \<and> write_error w (filepath w fieldname encoding (normalised_hint h)) d = None \<longrightarrow>
        processEncodedData w data encoding fieldname (Some h)
          = (Success fieldname encoding (length d)
               (filepath w fieldname encoding (normalised_hint h)),
             w\<lparr>files := (files w)(filepath w fieldname encoding (normalised_hint h) \<mapsto> d)\<rparr>))"
proof
  assume h: "h \<noteq> []"
  have e: "extension (Some h) encoding d = normalised_hint h"
    by (rule extension_hint [OF h])
  have s: "set (normalised_hint h) \<subseteq> ext_chars"
    by (auto simp: normalised_hint_def)
  have run: "decode encoding data = Inr d \<and> d \<noteq> []
          \<and> write_error w (filepath w fieldname encoding (normalised_hint h)) d = None \<longrightarrow>
        processEncodedData w data encoding fieldname (Some h)
          = (Success fieldname encoding (length d)
               (filepath w fieldname encoding (normalised_hint h)),
             w\<lparr>files := (files w)(filepath w fieldname encoding (normalised_hint h) \<mapsto> d)\<rparr>)"
    using process_written [of encoding data d w fieldname "Some h"]
    by (simp only: e) blast
  from e s run normalised_hint_dot [of h]
  show "extension (Some h) encoding d = normalised_hint h
     \<and> take 1 (extension (Some h) encoding d) = js ''.''
     \<and> set (extension (Some h) encoding d) \<subseteq> ext_chars
     \<and> (decode encoding data = Inr d \<and> d \<noteq> []
          \<and> write_error w (filepath w fieldname encoding (normalised_hint h)) d = None \<longrightarrow>
        processEncodedData w data encoding fieldname (Some h)
          = (Success fieldname encoding (length d)
               (filepath w fieldname encoding (normalised_hint h)),
             w\<lparr>files := (files w)(filepath w fieldname encoding (normalised_hint h) \<mapsto> d)\<rparr>))"
    by simp
qed

lemma normalised_hint_examples:
  "normalised_hint (js ''jp g!'') = js ''.jpg''"
  "normalised_hint (js ''.tar.gz'') = js ''.tar.gz''"
  "normalised_hint (js ''..txt'') = js ''..txt''"
  by (simp_all add: normalised_hint_def ext_chars_def js_def cu_def)

theorem hint_extension_witness:
  "js ''jp g!'' \<noteq> []
   \<and> extension (Some (js ''jp g!'')) (js ''base64'') [0x89, 0x50, 0x4E, 0x47] = js ''.jpg''
   \<and> decode (js ''base64'') (js ''/9j/4A=='') = Inr [0xFF, 0xD8, 0xFF, 0xE0]
   \<and> processEncodedData example_world (js ''/9j/4A=='') (js ''base64'') (js ''file1'')
         (Some (js ''.tar.gz''))
       = (Success (js ''file1'') (js ''base64'') 4
            (js ''/srv/uploads/1700000000000-file1-base64.tar.gz''),
          example_world\<lparr>files := (files example_world)
            (js ''/srv/uploads/1700000000000-file1-base64.tar.gz'' \<mapsto> [0xFF, 0xD8, 0xFF, 0xE0])\<rparr>)"
proof -
  have ne: "js ''jp g!'' \<noteq> []" "js ''.tar.gz'' \<noteq> []" by (simp_all add: js_def)
  have p: "filepath example_world (js ''file1'') (js ''base64'') (js ''.tar.gz'')
             = js ''/srv/uploads/1700000000000-file1-base64.tar.gz''"
    by (simp add: example_filepath) (simp add: js_def)
  have w: "write_error example_world q x = None" for q x
    by (simp add: example_world_def)
  have a: "extension (Some (js ''jp g!'')) (js ''base64'') [0x89, 0x50, 0x4E, 0x47] = js ''.jpg''"
    using hint_extension [of "js ''jp g!''" "js ''base64''" "[0x89, 0x50, 0x4E, 0x47]" "[]"
        example_world "[]"] ne
    by (simp add: normalised_hint_examples)
  have b: "processEncodedData example_world (js ''/9j/4A=='') (js ''base64'') (js ''file1'')
         (Some (js ''.tar.gz''))
       = (Success (js ''file1'') (js ''base64'') 4
            (js ''/srv/uploads/1700000000000-file1-base64.tar.gz''),
          example_world\<lparr>files := (files example_world)
            (js ''/srv/uploads/1700000000000-file1-base64.tar.gz'' \<mapsto> [0xFF, 0xD8, 0xFF, 0xE0])\<rparr>)"
    using hint_extension [of "js ''.tar.gz''" "js ''base64''" "[0xFF, 0xD8, 0xFF, 0xE0]"
        "js ''/9j/4A==''" example_world "js ''file1''"] ne p w decode_jpeg_example
    by (simp add: normalised_hint_examples)
  from ne a b decode_jpeg_example show ?thesis by simp
qed

theorem hint_extension_counterexample:
  "extension (Some (js ''..txt'')) (js ''utf8'') (bytes ''Hello'') = js ''..txt''"
  using extension_hint [of "js ''..txt''" "js ''utf8''" "bytes ''Hello''"]
  by (simp add: normalised_hint_examples) (simp add: js_def)

section \<open>Examples of whole calls\<close>

lemma decode_hello: "decode (js ''hex'') (js ''48656c6c6f'') = Inr (bytes ''Hello'')"
  by (simp add: decode_hex)
    (simp add: hex_digits_def js_def cu_def hex_value_def hex_table_def bytes_def)

lemma decode_zz: "decode (js ''hex'') (js ''zz'') = Inl InvalidHex"
  by (simp add: decode_hex) (simp add: hex_digits_def js_def cu_def)

lemma hello_path:
  "filepath example_world (js ''file1'') (js ''hex'') (extension None (js ''hex'') (bytes ''Hello''))
     = js ''/srv/uploads/1700000000000-file1-hex.bin''"
proof -
  have "extension None (js ''hex'') (bytes ''Hello'') = js ''.bin''"
    by (rule extension_default) (simp_all add: truthy_def js_def cu_def)
  then show ?thesis by (simp add: example_filepath) (simp add: js_def)
qed

lemma other_worlds_path:
  "filepath full_disk_world fieldname encoding ext = filepath example_world fieldname encoding ext"
  "filepath read_only_world fieldname encoding ext = filepath example_world fieldname encoding ext"
  by (simp_all add: filepath_def full_disk_world_def read_only_world_def)

lemma example_hello:
  "processEncodedData example_world (js ''48656c6c6f'') (js ''hex'') (js ''file1'') None
     = (Success (js ''file1'') (js ''hex'') 5 (js ''/srv/uploads/1700000000000-file1-hex.bin''),
        example_world\<lparr>files := (files example_world)
          (js ''/srv/uploads/1700000000000-file1-hex.bin'' \<mapsto> bytes ''Hello'')\<rparr>)"
proof -
  have ne: "bytes ''Hello'' \<noteq> []" and len: "length (bytes ''Hello'') = 5"
    by (simp_all add: bytes_def)
  have w: "write_error example_world q y = None" for q y
    by (simp add: example_world_def)
  from process_written [OF decode_hello ne, of example_world "js ''file1''" None] hello_path w len
  show ?thesis by simp
qed

lemma example_zz:
  "processEncodedData example_world (js ''zz'') (js ''hex'') (js ''file1'') None
     = (Failure (js ''file1'') (js ''hex'')
          (js ''Failed to process hex data: Invalid hexadecimal string''), example_world)"
  using process_decode_error [OF decode_zz] by (simp add: failure_text_hex)

lemma failure_text_write:
  "failure_text (js ''hex'') (WriteFailed (js ''ENOSPC: no space left on device, write''))
     = js ''Failed to process hex data: ENOSPC: no space left on device, write''"
  "failure_text (js ''hex'') (WriteFailed (js ''EACCES: permission denied, open''))
     = js ''Failed to process hex data: EACCES: permission denied, open''"
  by (simp_all add: failure_text_def js_def)

lemma example_full_disk:
  "processEncodedData full_disk_world (js ''48656c6c6f'') (js ''hex'') (js ''file1'') None
     = (Failure (js ''file1'') (js ''hex'')
          (js ''Failed to process hex data: ENOSPC: no space left on device, write''),
        full_disk_world\<lparr>files := (files full_disk_world)
          (js ''/srv/uploads/1700000000000-file1-hex.bin'' \<mapsto> [])\<rparr>)"
proof -
  have ne: "bytes ''Hello'' \<noteq> []" by (simp add: bytes_def)
  have w: "write_error full_disk_world q y
             = Some (js ''ENOSPC: no space left on device, write'', Some 0)" for q y
    by (simp add: full_disk_world_def)
  from process_write_error [OF decode_hello ne w, of "js ''file1''" None]
  show ?thesis by (simp add: other_worlds_path hello_path failure_text_write)
qed

lemma example_read_only:
  "processEncodedData read_only_world (js ''48656c6c6f'') (js ''hex'') (js ''file1'') None
     = (Failure (js ''file1'') (js ''hex'')
          (js ''Failed to process hex data: EACCES: permission denied, open''),
        read_only_world)"
proof -
  have ne: "bytes ''Hello'' \<noteq> []" by (simp add: bytes_def)
  have w: "write_error read_only_world q y
             = Some (js ''EACCES: permission denied, open'', None)" for q y
    by (simp add: read_only_world_def)
  from process_write_error [OF decode_hello ne w, of "js ''file1''" None]
  show ?thesis by (simp add: failure_text_write)
qed

section \<open>Outcomes and the file system\<close>

text \<open>
  C5, as amended. When the function returns a success, the decoding of the payload gave
  some bytes, the file at the reported path holds exactly these bytes, the reported size
  is their number, and nothing else in the file system changed. When it returns a failure
  that was raised before the write (an error of the decoding, or no decoded byte), the
  file system is as it was before the call, and so it is when the write raised without
  opening the file. When the write raised after opening the file, the failure is returned
  and the path holds what the write left, the first bytes of the decoded payload or none:
  nothing removes it. No other path changes. The counterexample is the write on a full
  disk, which returns a failure and leaves an empty file.
\<close>

theorem stored_file_invariant:
  "(processEncodedData w data encoding fieldname fileExtension = (Success f e n p, w') \<longrightarrow>
      f = fieldname \<and> e = encoding
      \<and> (\<exists>d. decode encoding data = Inr d \<and> files w' p = Some d \<and> length d = n
            \<and> w' = w\<lparr>files := (files w)(p \<mapsto> d)\<rparr>))
   \<and> (processEncodedData w data encoding fieldname fileExtension = (Failure f e m, w')
        \<and> (isl (decode encoding data) \<or> decode encoding data = Inr []) \<longrightarrow>
        w' = w)
   \<and> (processEncodedData w data encoding fieldname fileExtension = (Failure f e m, w') \<longrightarrow>
        w' = w
        \<or> (\<exists>d k. decode encoding data = Inr d \<and> d \<noteq> []
              \<and> w' = w\<lparr>files := (files w)
                        (filepath w fieldname encoding (extension fileExtension encoding d)
                           \<mapsto> take k d)\<rparr>))
   \<and> (decode encoding data = Inr d \<and> d \<noteq> []
        \<and> write_error w (filepath w fieldname encoding (extension fileExtension encoding d)) d
            = Some (x, None) \<longrightarrow>
        processEncodedData w data encoding fieldname fileExtension
          = (Failure fieldname encoding
               (js ''Failed to process '' @ encoding @ js '' data: '' @ x), w))
   \<and> (decode encoding data = Inr d \<and> d \<noteq> []
        \<and> write_error w (filepath w fieldname encoding (extension fileExtension encoding d)) d
            = Some (x, Some k) \<longrightarrow>
        processEncodedData w data encoding fieldname fileExtension
          = (Failure fieldname encoding
               (js ''Failed to process '' @ encoding @ js '' data: '' @ x),
             w\<lparr>files := (files w)
                (filepath w fieldname encoding (extension fileExtension encoding d)
                   \<mapsto> take k d)\<rparr>))"
proof -
  have 1: "processEncodedData w data encoding fieldname fileExtension = (Success f e n p, w') \<longrightarrow>
      f = fieldname \<and> e = encoding
      \<and> (\<exists>d. decode encoding data = Inr d \<and> files w' p = Some d \<and> length d = n
            \<and> w' = w\<lparr>files := (files w)(p \<mapsto> d)\<rparr>)"
    by (auto simp: processEncodedData_def try_body_def writeFileSync_def Let_def
        split: sum.splits if_splits option.splits prod.splits)
  have 2: "processEncodedData w data encoding fieldname fileExtension = (Failure f e m, w')
        \<and> (isl (decode encoding data) \<or> decode encoding data = Inr []) \<longrightarrow>
        w' = w"
    by (auto simp: processEncodedData_def try_body_def split: sum.splits)
  have 3: "processEncodedData w data encoding fieldname fileExtension = (Failure f e m, w') \<longrightarrow>
        w' = w
        \<or> (\<exists>d k. decode encoding data = Inr d \<and> d \<noteq> []
              \<and> w' = w\<lparr>files := (files w)
                        (filepath w fieldname encoding (extension fileExtension encoding d)
                           \<mapsto> take k d)\<rparr>)"
    by (auto simp: processEncodedData_def try_body_def writeFileSync_def Let_def
        split: sum.splits if_splits option.splits prod.splits)
  have 4: "decode encoding data = Inr d \<and> d \<noteq> []
        \<and> write_error w (filepath w fieldname encoding (extension fileExtension encoding d)) d
            = Some (x, None) \<longrightarrow>
        processEncodedData w data encoding fieldname fileExtension
          = (Failure fieldname encoding
               (js ''Failed to process '' @ encoding @ js '' data: '' @ x), w)"
    using process_write_error [of encoding data d w fieldname fileExtension x None]
    by (simp add: failure_text_def)
  have 5: "decode encoding data = Inr d \<and> d \<noteq> []
        \<and> write_error w (filepath w fieldname encoding (extension fileExtension encoding d)) d
            = Some (x, Some k) \<longrightarrow>
        processEncodedData w data encoding fieldname fileExtension
          = (Failure fieldname encoding
               (js ''Failed to process '' @ encoding @ js '' data: '' @ x),
             w\<lparr>files := (files w)
                (filepath w fieldname encoding (extension fileExtension encoding d)
                   \<mapsto> take k d)\<rparr>)"
    using process_write_error [of encoding data d w fieldname fileExtension x "Some k"]
    by (simp add: failure_text_def)
  from 1 2 3 4 5 show ?thesis by blast
qed

theorem stored_file_invariant_witness:
  "processEncodedData example_world (js ''48656c6c6f'') (js ''hex'') (js ''file1'') None
     = (Success (js ''file1'') (js ''hex'') 5 (js ''/srv/uploads/1700000000000-file1-hex.bin''),
        example_world\<lparr>files := (files example_world)
          (js ''/srv/uploads/1700000000000-file1-hex.bin'' \<mapsto> bytes ''Hello'')\<rparr>)
   \<and> decode (js ''hex'') (js ''48656c6c6f'') = Inr (bytes ''Hello'') \<and> bytes ''Hello'' \<noteq> []
   \<and> files (snd (processEncodedData example_world (js ''48656c6c6f'') (js ''hex'') (js ''file1'') None))
         (js ''/srv/uploads/1700000000000-file1-hex.bin'') = Some (bytes ''Hello'')
   \<and> length (bytes ''Hello'') = 5
   \<and> isl (decode (js ''hex'') (js ''zz''))
   \<and> processEncodedData example_world (js ''zz'') (js ''hex'') (js ''file1'') None
     = (Failure (js ''file1'') (js ''hex'')
          (js ''Failed to process hex data: Invalid hexadecimal string''), example_world)
   \<and> write_error read_only_world (js ''/srv/uploads/1700000000000-file1-hex.bin'') (bytes ''Hello'')
     = Some (js ''EACCES: permission denied, open'', None)
   \<and> processEncodedData read_only_world (js ''48656c6c6f'') (js ''hex'') (js ''file1'') None
     = (Failure (js ''file1'') (js ''hex'')
          (js ''Failed to process hex data: EACCES: permission denied, open''),
        read_only_world)
   \<and> write_error full_disk_world (js ''/srv/uploads/1700000000000-file1-hex.bin'') (bytes ''Hello'')
     = Some (js ''ENOSPC: no space left on device, write'', Some 0)
   \<and> processEncodedData full_disk_world (js ''48656c6c6f'') (js ''hex'') (js ''file1'') None
     = (Failure (js ''file1'') (js ''hex'')
          (js ''Failed to process hex data: ENOSPC: no space left on device, write''),
        full_disk_world\<lparr>files := (files full_disk_world)
          (js ''/srv/uploads/1700000000000-file1-hex.bin'' \<mapsto> [])\<rparr>)"
proof -
  have ne: "bytes ''Hello'' \<noteq> []" and len: "length (bytes ''Hello'') = 5"
    by (simp_all add: bytes_def)
  have wr: "write_error read_only_world q y = Some (js ''EACCES: permission denied, open'', None)"
    and wf: "write_error full_disk_world q y
               = Some (js ''ENOSPC: no space left on device, write'', Some 0)" for q y
    by (simp_all add: read_only_world_def full_disk_world_def)
  have z: "isl (decode (js ''hex'') (js ''zz''))" by (simp add: decode_zz)
  have a: "files (snd (processEncodedData example_world (js ''48656c6c6f'') (js ''hex'')
              (js ''file1'') None))
         (js ''/srv/uploads/1700000000000-file1-hex.bin'') = Some (bytes ''Hello'')"
    using stored_file_invariant [of example_world "js ''48656c6c6f''" "js ''hex''" "js ''file1''"
        None "js ''file1''" "js ''hex''" 5 "js ''/srv/uploads/1700000000000-file1-hex.bin''"
        "example_world\<lparr>files := (files example_world)
          (js ''/srv/uploads/1700000000000-file1-hex.bin'' \<mapsto> bytes ''Hello'')\<rparr>"]
      example_hello
    by simp
  have b: "snd (processEncodedData example_world (js ''zz'') (js ''hex'') (js ''file1'') None)
      = example_world"
    using stored_file_invariant [of example_world "js ''zz''" "js ''hex''" "js ''file1''" None
        "js ''file1''" "js ''hex''" 0 "[]"
        "snd (processEncodedData example_world (js ''zz'') (js ''hex'') (js ''file1'') None)"
        "js ''Failed to process hex data: Invalid hexadecimal string''"]
      example_zz z
    by simp
  have c: "processEncodedData read_only_world (js ''48656c6c6f'') (js ''hex'') (js ''file1'') None
     = (Failure (js ''file1'') (js ''hex'')
          (js ''Failed to process hex data: EACCES: permission denied, open''),
        read_only_world)"
    using stored_file_invariant [of read_only_world "js ''48656c6c6f''" "js ''hex''" "js ''file1''"
        None _ _ _ _ _ _ "bytes ''Hello''" "js ''EACCES: permission denied, open''"]
      decode_hello ne wr
    by (simp add: js_def)
  have d: "processEncodedData full_disk_world (js ''48656c6c6f'') (js ''hex'') (js ''file1'') None
     = (Failure (js ''file1'') (js ''hex'')
          (js ''Failed to process hex data: ENOSPC: no space left on device, write''),
        full_disk_world\<lparr>files := (files full_disk_world)
          (js ''/srv/uploads/1700000000000-file1-hex.bin'' \<mapsto> [])\<rparr>)"
    using stored_file_invariant [of full_disk_world "js ''48656c6c6f''" "js ''hex''" "js ''file1''"
        None _ _ _ _ _ _ "bytes ''Hello''" "js ''ENOSPC: no space left on device, write''" 0]
      decode_hello ne wf
    by (simp add: other_worlds_path hello_path) (simp add: js_def)
  from a b c d ne len z wr wf example_hello example_zz decode_hello show ?thesis by simp
qed

theorem stored_file_failure_counterexample:
  "fst (processEncodedData full_disk_world (js ''48656c6c6f'') (js ''hex'') (js ''file1'') None)
     = Failure (js ''file1'') (js ''hex'')
         (js ''Failed to process hex data: ENOSPC: no space left on device, write'')
   \<and> files full_disk_world (js ''/srv/uploads/1700000000000-file1-hex.bin'') = None
   \<and> files (snd (processEncodedData full_disk_world (js ''48656c6c6f'') (js ''hex'')
                 (js ''file1'') None))
         (js ''/srv/uploads/1700000000000-file1-hex.bin'') = Some []"
  by (simp add: example_full_disk) (simp add: full_disk_world_def example_world_def)

section \<open>Every error becomes a failure outcome\<close>

text \<open>
  C7. The function returns an outcome for every payload, encoding name, field name and
  extension hint, and no error leaves it: an error raised while decoding gives a failure
  whose text is \<open>Failed to process \<close>, the encoding, \<open> data: \<close> and the message of the
  error; an error raised by the write gives a failure with the message of that error; and
  each outcome is a success or a failure that carries the field name and the encoding
  of the call, a failure with a non-empty text. An error of the decoding leaves the file
  system as it was; an error of the write leaves what the write left.
\<close>

theorem never_raises:
  "(decode encoding data = Inl e \<longrightarrow>
      processEncodedData w data encoding fieldname fileExtension
        = (Failure fieldname encoding
             (js ''Failed to process '' @ encoding @ js '' data: '' @ message e), w))
   \<and> (decode encoding data = Inr d \<and> d \<noteq> []
        \<and> write_error w (filepath w fieldname encoding (extension fileExtension encoding d)) d
            = Some (m, left) \<longrightarrow>
      processEncodedData w data encoding fieldname fileExtension
        = (Failure fieldname encoding
             (js ''Failed to process '' @ encoding @ js '' data: '' @ m),
           case left of
             None \<Rightarrow> w
           | Some k \<Rightarrow>
               w\<lparr>files := (files w)
                  (filepath w fieldname encoding (extension fileExtension encoding d)
                     \<mapsto> take k d)\<rparr>))
   \<and> ((\<exists>n p w'. processEncodedData w data encoding fieldname fileExtension
                    = (Success fieldname encoding n p, w'))
        \<or> (\<exists>r w'. r \<noteq> [] \<and> processEncodedData w data encoding fieldname fileExtension
                    = (Failure fieldname encoding r, w')
              \<and> (w' = w
                   \<or> (\<exists>d k. decode encoding data = Inr d
                         \<and> w' = w\<lparr>files := (files w)
                              (filepath w fieldname encoding (extension fileExtension encoding d)
                                 \<mapsto> take k d)\<rparr>))))"
proof -
  have 1: "decode encoding data = Inl e \<longrightarrow>
      processEncodedData w data encoding fieldname fileExtension
        = (Failure fieldname encoding
             (js ''Failed to process '' @ encoding @ js '' data: '' @ message e), w)"
    using process_decode_error [of encoding data e w fieldname fileExtension]
    by (simp add: failure_text_def)
  have 2: "decode encoding data = Inr d \<and> d \<noteq> []
        \<and> write_error w (filepath w fieldname encoding (extension fileExtension encoding d)) d
            = Some (m, left) \<longrightarrow>
      processEncodedData w data encoding fieldname fileExtension
        = (Failure fieldname encoding
             (js ''Failed to process '' @ encoding @ js '' data: '' @ m),
           case left of
             None \<Rightarrow> w
           | Some k \<Rightarrow>
               w\<lparr>files := (files w)
                  (filepath w fieldname encoding (extension fileExtension encoding d)
                     \<mapsto> take k d)\<rparr>)"
    using process_write_error [of encoding data d w fieldname fileExtension m left]
    by (simp add: failure_text_def)
  have ne: "failure_text encoding x \<noteq> []" for x
    by (simp add: failure_text_def js_def)
  have 3: "(\<exists>n p w'. processEncodedData w data encoding fieldname fileExtension
                    = (Success fieldname encoding n p, w'))
        \<or> (\<exists>r w'. r \<noteq> [] \<and> processEncodedData w data encoding fieldname fileExtension
                    = (Failure fieldname encoding r, w')
              \<and> (w' = w
                   \<or> (\<exists>d k. decode encoding data = Inr d
                         \<and> w' = w\<lparr>files := (files w)
                              (filepath w fieldname encoding (extension fileExtension encoding d)
                                 \<mapsto> take k d)\<rparr>)))"
    using ne
    by (auto simp: processEncodedData_def try_body_def writeFileSync_def Let_def
      split: sum.splits if_splits option.splits prod.splits)
  from 1 2 3 show ?thesis by blast
qed

theorem never_raises_witness:
  "decode (js ''hex'') (js ''zz'') = Inl InvalidHex
   \<and> processEncodedData example_world (js ''zz'') (js ''hex'') (js ''file1'') None
     = (Failure (js ''file1'') (js ''hex'')
          (js ''Failed to process hex data: Invalid hexadecimal string''), example_world)
   \<and> decode (js ''hex'') (js ''48656c6c6f'') = Inr (bytes ''Hello'') \<and> bytes ''Hello'' \<noteq> []
   \<and> write_error full_disk_world
         (filepath full_disk_world (js ''file1'') (js ''hex'')
            (extension None (js ''hex'') (bytes ''Hello'')))
         (bytes ''Hello'') = Some (js ''ENOSPC: no space left on device, write'', Some 0)
   \<and> processEncodedData full_disk_world (js ''48656c6c6f'') (js ''hex'') (js ''file1'') None
     = (Failure (js ''file1'') (js ''hex'')
          (js ''Failed to process hex data: ENOSPC: no space left on device, write''),
        full_disk_world\<lparr>files := (files full_disk_world)
          (js ''/srv/uploads/1700000000000-file1-hex.bin'' \<mapsto> [])\<rparr>)"
proof -
  have ne: "bytes ''Hello'' \<noteq> []" by (simp add: bytes_def)
  have w: "write_error full_disk_world q y
             = Some (js ''ENOSPC: no space left on device, write'', Some 0)" for q y
    by (simp add: full_disk_world_def)
  have a: "processEncodedData example_world (js ''zz'') (js ''hex'') (js ''file1'') None
     = (Failure (js ''file1'') (js ''hex'')
          (js ''Failed to process hex data: Invalid hexadecimal string''), example_world)"
    using never_raises [of "js ''hex''" "js ''zz''" InvalidHex example_world "js ''file1''" None
        "[]" "[]"] decode_zz
    by (simp add: js_def)
  have b: "processEncodedData full_disk_world (js ''48656c6c6f'') (js ''hex'') (js ''file1'') None
     = (Failure (js ''file1'') (js ''hex'')
          (js ''Failed to process hex data: ENOSPC: no space left on device, write''),
        full_disk_world\<lparr>files := (files full_disk_world)
          (js ''/srv/uploads/1700000000000-file1-hex.bin'' \<mapsto> [])\<rparr>)"
    using never_raises [of "js ''hex''" "js ''48656c6c6f''" InvalidHex full_disk_world
        "js ''file1''" None "bytes ''Hello''" "js ''ENOSPC: no space left on device, write''"
        "Some 0"]
      decode_hello ne w
    by (simp add: other_worlds_path hello_path) (simp add: js_def)
  from a b decode_zz decode_hello ne w show ?thesis by simp
qed

section \<open>Base64 payloads\<close>

lemma in_space_class: "in_class space_class c \<longleftrightarrow> c \<in> whitespace"
  by (simp add: space_class_def whitespace_def in_range_word upt_rec)

lemma in_base64_class: "in_class base64_class c \<longleftrightarrow> c \<in> set base64_chars"
  by (simp add: base64_class_def base64_chars_def in_range_word js_def cu_def upt_rec)

lemma unbase64_table:
  "c \<noteq> cu CHR ''-'' \<Longrightarrow> c \<noteq> cu CHR ''_'' \<Longrightarrow> unbase64 c = map_of (zip base64_chars [0 ..< 64]) c"
  by (simp add: unbase64_def base64_chars_def in_range_word js_def cu_def upt_rec)

lemma base64_chars_value:
  "c \<in> set base64_chars \<Longrightarrow> unbase64 c = Some (base64_value c)"
proof -
  assume c: "c \<in> set base64_chars"
  then have "c \<noteq> cu CHR ''-''" "c \<noteq> cu CHR ''_''"
    by (auto simp: base64_chars_def js_def cu_def)
  then have u: "unbase64 c = map_of (zip base64_chars [0 ..< 64]) c" by (rule unbase64_table)
  have "length base64_chars = length [0 ..< (64::nat)]" by (simp add: base64_chars_def js_def)
  with c obtain v where "map_of (zip base64_chars [0 ..< 64]) c = Some v"
    by (metis map_of_zip_is_Some option.exhaust not_Some_eq)
  with u show ?thesis by (simp add: base64_value_def)
qed

lemma map_filter_unbase64:
  "set body \<subseteq> set base64_chars \<Longrightarrow> List.map_filter unbase64 body = map base64_value body"
  by (induction body) (simp_all add: List.map_filter_simps base64_chars_value)

lemma strip_whitespace_replace: "replace_all space_class [] data = strip_whitespace data"
  by (simp add: replace_all_delete strip_whitespace_def in_space_class)

lemma regex_test_base64_shaped: "regex_test base64_re s \<longleftrightarrow> base64_shaped s"
  by (auto simp: regex_test_base64_re base64_shaped_def list_all_iff in_base64_class)

lemma equals_not_base64: "cu CHR ''='' \<notin> set base64_chars"
  by (simp add: base64_chars_def js_def cu_def)

lemma shaped_takeWhile:
  assumes "set body \<subseteq> set base64_chars" and "pad = [] \<or> pad = js ''='' \<or> pad = js ''==''"
  shows "takeWhile (\<lambda>c. c \<noteq> cu CHR ''='') (body @ pad) = body"
proof -
  have "\<forall>c \<in> set body. c \<noteq> cu CHR ''=''" using assms(1) equals_not_base64 by auto
  moreover have "takeWhile (\<lambda>c. c \<noteq> cu CHR ''='') pad = []"
    using assms(2) by (auto simp: js_def)
  ultimately show ?thesis by (simp add: takeWhile_append2)
qed

lemma div_mod_block:
  fixes q r m :: nat
  assumes "r < m"
  shows "(q * m + r) div m = q" and "(q * m + r) mod m = r"
  using assms by simp_all

lemma four_sextets:
  fixes a b c d :: nat
  assumes "b < 64" "c < 64" "d < 64"
  shows "(((a * 64 + b) * 64 + c) * 64 + d) div 65536 = a * 4 + b div 16"
    and "(((a * 64 + b) * 64 + c) * 64 + d) div 256 mod 256 = b mod 16 * 16 + c div 4"
    and "(((a * 64 + b) * 64 + c) * 64 + d) mod 256 = c mod 4 * 64 + d"
proof -
  define bh bl ch cl where "bh = b div 16" and "bl = b mod 16" and "ch = c div 4"
    and "cl = c mod 4"
  have b: "b = bh * 16 + bl" and c: "c = ch * 4 + cl" by (simp_all add: bh_def bl_def ch_def cl_def)
  have bl: "bl < 16" and cl: "cl < 4" by (simp_all add: bl_def cl_def)
  from assms(2) have ch: "ch < 16" by (simp add: ch_def)
  have lo: "cl * 64 + d < 256" using cl assms(3) by simp
  have mid: "bl * 16 + ch < 256" using bl ch by simp
  have r: "(bl * 16 + ch) * 256 + (cl * 64 + d) < 65536" using mid lo by simp
  have n1: "((a * 64 + b) * 64 + c) * 64 + d
      = (a * 4 + bh) * 65536 + ((bl * 16 + ch) * 256 + (cl * 64 + d))"
    unfolding b c by (simp add: algebra_simps)
  have n2: "((a * 64 + b) * 64 + c) * 64 + d
      = ((a * 4 + bh) * 256 + (bl * 16 + ch)) * 256 + (cl * 64 + d)"
    unfolding b c by (simp add: algebra_simps)
  show "(((a * 64 + b) * 64 + c) * 64 + d) div 65536 = a * 4 + b div 16"
    unfolding n1 bh_def [symmetric] by (rule div_mod_block(1) [OF r])
  have "(((a * 64 + b) * 64 + c) * 64 + d) div 256 = (a * 4 + bh) * 256 + (bl * 16 + ch)"
    unfolding n2 by (rule div_mod_block(1) [OF lo])
  then show "(((a * 64 + b) * 64 + c) * 64 + d) div 256 mod 256 = b mod 16 * 16 + c div 4"
    unfolding bl_def [symmetric] ch_def [symmetric] by (simp only: div_mod_block(2) [OF mid])
  show "(((a * 64 + b) * 64 + c) * 64 + d) mod 256 = c mod 4 * 64 + d"
    unfolding n2 cl_def [symmetric] by (rule div_mod_block(2) [OF lo])
qed

lemma three_sextets:
  fixes a b c :: nat
  assumes "b < 64" "c < 64"
  shows "((a * 64 + b) * 64 + c) div 1024 = a * 4 + b div 16"
    and "((a * 64 + b) * 64 + c) div 4 mod 256 = b mod 16 * 16 + c div 4"
proof -
  define bh bl ch cl where "bh = b div 16" and "bl = b mod 16" and "ch = c div 4"
    and "cl = c mod 4"
  have b: "b = bh * 16 + bl" and c: "c = ch * 4 + cl" by (simp_all add: bh_def bl_def ch_def cl_def)
  have bl: "bl < 16" and cl: "cl < 4" by (simp_all add: bl_def cl_def)
  from assms(2) have ch: "ch < 16" by (simp add: ch_def)
  have mid: "bl * 16 + ch < 256" using bl ch by simp
  have r: "(bl * 16 + ch) * 4 + cl < 1024" using mid cl by simp
  have n1: "(a * 64 + b) * 64 + c = (a * 4 + bh) * 1024 + ((bl * 16 + ch) * 4 + cl)"
    unfolding b c by (simp add: algebra_simps)
  have n2: "(a * 64 + b) * 64 + c = ((a * 4 + bh) * 256 + (bl * 16 + ch)) * 4 + cl"
    unfolding b c by (simp add: algebra_simps)
  show "((a * 64 + b) * 64 + c) div 1024 = a * 4 + b div 16"
    unfolding n1 bh_def [symmetric] by (rule div_mod_block(1) [OF r])
  have "((a * 64 + b) * 64 + c) div 4 = (a * 4 + bh) * 256 + (bl * 16 + ch)"
    unfolding n2 by (rule div_mod_block(1) [OF cl])
  then show "((a * 64 + b) * 64 + c) div 4 mod 256 = b mod 16 * 16 + c div 4"
    unfolding bl_def [symmetric] ch_def [symmetric] by (simp only: div_mod_block(2) [OF mid])
qed

lemma two_sextets: "(a * 64 + b) div 16 = a * 4 + b div 16" for a b :: nat
  by simp

lemma pack_sextets_bytes:
  "list_all (\<lambda>x. x < 64) xs \<Longrightarrow> pack_sextets xs = bytes_of_sextets xs"
proof (induction xs rule: pack_sextets.induct)
  case (1 a b c d rest)
  then have "b < 64" "c < 64" "d < 64" and "pack_sextets rest = bytes_of_sextets rest"
    by simp_all
  then show ?case
    by (simp only: pack_sextets.simps bytes_of_sextets.simps Let_def four_sextets append_Cons
        append_Nil)
next
  case (2 a b c)
  then have "b < 64" "c < 64" by simp_all
  then show ?case
    by (simp only: pack_sextets.simps bytes_of_sextets.simps Let_def three_sextets)
next
  case (3 a b)
  show ?case by (simp only: pack_sextets.simps bytes_of_sextets.simps two_sextets)
qed simp_all

lemma base64_value_less: "base64_value c < 64"
proof (cases "map_of (zip base64_chars [0 ..< 64]) c")
  case None
  then show ?thesis by (simp add: base64_value_def)
next
  case (Some v)
  then have "(c, v) \<in> set (zip base64_chars [0 ..< 64])" by (rule map_of_SomeD)
  then have "v \<in> set [0 ..< 64]" by (rule set_zip_rightD)
  with Some show ?thesis by (simp add: base64_value_def)
qed

lemma standard_base64_pack:
  "standard_base64 s = pack_sextets (map base64_value (takeWhile (\<lambda>c. c \<noteq> cu CHR ''='') s))"
  by (simp add: standard_base64_def pack_sextets_bytes list_all_iff base64_value_less)

lemma Buffer_from_base64_standard:
  assumes "base64_shaped s"
  shows "Buffer_from_base64 s = Inr (standard_base64 s)"
proof -
  from assms obtain body pad where s: "s = body @ pad" "set body \<subseteq> set base64_chars"
    "pad = [] \<or> pad = js ''='' \<or> pad = js ''==''"
    unfolding base64_shaped_def by blast
  then have "takeWhile (\<lambda>c. c \<noteq> cu CHR ''='') s = body" by (simp add: shaped_takeWhile)
  with s(2) show ?thesis
    by (simp add: Buffer_from_base64_def standard_base64_pack map_filter_unbase64)
qed

lemma replace_all_single:
  "replace_all (In [(x, x)]) [y] s = map (\<lambda>c. if c = x then y else c) s"
  by (induction s) (auto simp: replace_all_def)

lemma shaped_urlsafe:
  assumes "base64_shaped s"
  shows "replace_all (In [(cu CHR ''_'', cu CHR ''_'')]) (js ''/'')
           (replace_all (In [(cu CHR ''-'', cu CHR ''-'')]) (js ''+'') s) = s"
proof -
  from assms have "set s \<subseteq> set base64_chars \<union> {cu CHR ''=''}"
    by (auto simp: base64_shaped_def js_def)
  moreover have "cu CHR ''-'' \<notin> set base64_chars \<union> {cu CHR ''=''}"
    "cu CHR ''_'' \<notin> set base64_chars \<union> {cu CHR ''=''}"
    by (simp_all add: base64_chars_def js_def cu_def)
  ultimately have "\<forall>c \<in> set s. c \<noteq> cu CHR ''-'' \<and> c \<noteq> cu CHR ''_''" by blast
  then have "map (\<lambda>c. if c = cu CHR ''_'' then cu CHR ''/'' else c)
               (map (\<lambda>c. if c = cu CHR ''-'' then cu CHR ''+'' else c) s) = s"
    by (induction s) simp_all
  then show ?thesis by (simp add: js_def replace_all_single)
qed

lemma decode_base64_cases:
  "decode_base64 from64 data =
     (if \<not> base64_shaped (strip_whitespace data) then Inl InvalidBase64Format
      else if length (strip_whitespace data) mod 4 \<noteq> 0 then Inl InvalidBase64Length
      else case from64 (strip_whitespace data) of
             Inr b \<Rightarrow> Inr b
           | Inl m \<Rightarrow> Inl (Base64DecodingFailed m))"
  by (simp add: decode_base64_def decode_or_retry_def strip_whitespace_replace
      regex_test_base64_shaped shaped_urlsafe Let_def split: sum.splits)

lemma decode_base64_node:
  "decode (js ''base64'') data = decode_base64 Buffer_from_base64 data"
  by (simp add: decode_def js_def cu_def)

lemma url_safe_replace:
  "replace_all (In [(cu CHR ''_'', cu CHR ''_'')]) (js ''/'')
     (replace_all (In [(cu CHR ''-'', cu CHR ''-'')]) (js ''+'') s) = url_safe_substitution s"
  by (induction s) (auto simp: url_safe_substitution_def js_def replace_all_single cu_def)

lemma shaped_url_safe: "base64_shaped s \<Longrightarrow> url_safe_substitution s = s"
  using shaped_urlsafe [of s] by (simp add: url_safe_replace)

lemma decode_or_retry_cases:
  "decode_or_retry from64 s =
     (case from64 s of
        Inr b \<Rightarrow> Inr b
      | Inl m \<Rightarrow>
          (case from64 (url_safe_substitution s) of
             Inr b \<Rightarrow> Inr b
           | Inl m' \<Rightarrow> Inl (Base64DecodingFailed m)))"
  by (simp add: decode_or_retry_def url_safe_replace Let_def split: sum.splits)

lemma decode_base64_retry:
  "decode_base64 from64 data =
     (if \<not> base64_shaped (strip_whitespace data) then Inl InvalidBase64Format
      else if length (strip_whitespace data) mod 4 \<noteq> 0 then Inl InvalidBase64Length
      else decode_or_retry from64 (strip_whitespace data))"
  by (simp add: decode_base64_def strip_whitespace_replace regex_test_base64_shaped Let_def)

lemma eval_shaped:
  "base64_shaped s \<longleftrightarrow> regex_test base64_re s"
  by (simp add: regex_test_base64_shaped)

lemmas eval_base64 =
  strip_whitespace_def whitespace_def eval_shaped base64_re_def base64_class_def Upto2_def
  js_def cu_def

lemma decode_SGVsbG8: "decode (js ''base64'') (js ''SGVsbG8='') = Inr (bytes ''Hello'')"
  by (simp add: decode_def decode_base64_def decode_or_retry_def replace_all_def space_class_def
      base64_re_def base64_class_def Upto2_def Buffer_from_base64_def List.map_filter_simps
      unbase64_def js_def cu_def bytes_def)

lemma failure_text_base64:
  "failure_text (js ''base64'') InvalidBase64Format
     = js ''Failed to process base64 data: Invalid base64 format''"
  "failure_text (js ''base64'') InvalidBase64Length
     = js ''Failed to process base64 data: Invalid base64 string length''"
  by (simp_all add: failure_text_def js_def)

lemma retry_examples:
  "url_safe_substitution (js ''-_-_'') = js ''+/+/''"
  "strict_decoder (js ''-_-_'') = Inl (js ''Invalid character'')"
  "strict_decoder (js ''+/+/'') = Inr [0xFB, 0xFF, 0xBF]"
  "url_safe_substitution (js ''a-b'') = js ''a+b''"
  by (simp_all add: url_safe_substitution_def strict_decoder_def Buffer_from_base64_def
      List.map_filter_simps unbase64_def js_def cu_def)

text \<open>
  C2. Under the \<open>base64\<close> encoding the white space is stripped first. A stripped string
  that is not a run of characters of the standard alphabet followed by at most two \<open>=\<close>
  is refused with \<open>Invalid base64 format\<close>; one of this shape whose length is not a
  multiple of 4 is refused with \<open>Invalid base64 string length\<close>. Otherwise the stripped
  string goes through the decoding with its retry, which is stated for every string \<open>s\<close>
  and every decoder \<open>from64\<close>: the result of the decoder on \<open>s\<close> is the result; when the
  decoder raises on \<open>s\<close>, it is tried once more on \<open>s\<close> with \<open>-\<close> and \<open>_\<close> replaced by \<open>+\<close>
  and \<open>/\<close>, and the result of that attempt is the result; when that raises too, the
  error is \<open>Base64 decoding failed: \<close> followed by the message of the first error. A
  string that passed the validation has no \<open>-\<close> and no \<open>_\<close>, so the substitution leaves
  it as it is; and Node's decoder gives the bytes of the standard alphabet for it.
  \<open>SGVsbG8=\<close> decodes to the five bytes of \<open>Hello\<close>, and \<open>SGVsbG8\<close> is refused for its
  length.
\<close>

theorem base64_decoding:
  "(\<not> base64_shaped (strip_whitespace data) \<longrightarrow>
      decode_base64 from64 data = Inl InvalidBase64Format
      \<and> processEncodedData w data (js ''base64'') fieldname fileExtension
          = (Failure fieldname (js ''base64'')
               (js ''Failed to process base64 data: Invalid base64 format''), w))
   \<and> (base64_shaped (strip_whitespace data) \<and> length (strip_whitespace data) mod 4 \<noteq> 0 \<longrightarrow>
      decode_base64 from64 data = Inl InvalidBase64Length
      \<and> processEncodedData w data (js ''base64'') fieldname fileExtension
          = (Failure fieldname (js ''base64'')
               (js ''Failed to process base64 data: Invalid base64 string length''), w))
   \<and> (base64_shaped (strip_whitespace data) \<and> length (strip_whitespace data) mod 4 = 0 \<longrightarrow>
      decode_base64 from64 data = decode_or_retry from64 (strip_whitespace data))
   \<and> (from64 s = Inr b \<longrightarrow> decode_or_retry from64 s = Inr b)
   \<and> (from64 s = Inl m \<and> from64 (url_safe_substitution s) = Inr b \<longrightarrow>
      decode_or_retry from64 s = Inr b)
   \<and> (from64 s = Inl m \<and> from64 (url_safe_substitution s) = Inl m' \<longrightarrow>
      decode_or_retry from64 s = Inl (Base64DecodingFailed m)
      \<and> message (Base64DecodingFailed m) = js ''Base64 decoding failed: '' @ m)
   \<and> (base64_shaped (strip_whitespace data) \<and> length (strip_whitespace data) mod 4 = 0
        \<and> from64 (strip_whitespace data) = Inr b \<longrightarrow>
      decode_base64 from64 data = Inr b)
   \<and> (base64_shaped (strip_whitespace data) \<and> length (strip_whitespace data) mod 4 = 0
        \<and> from64 (strip_whitespace data) = Inl m
        \<and> from64 (url_safe_substitution (strip_whitespace data)) = Inl m' \<longrightarrow>
      decode_base64 from64 data = Inl (Base64DecodingFailed m)
      \<and> message (Base64DecodingFailed m) = js ''Base64 decoding failed: '' @ m)
   \<and> (base64_shaped (strip_whitespace data) \<and> length (strip_whitespace data) mod 4 = 0 \<longrightarrow>
      url_safe_substitution (strip_whitespace data) = strip_whitespace data
      \<and> decode (js ''base64'') data = Inr (standard_base64 (strip_whitespace data)))
   \<and> decode (js ''base64'') data = decode_base64 Buffer_from_base64 data
   \<and> decode (js ''base64'') (js ''SGVsbG8='') = Inr (bytes ''Hello'')
   \<and> processEncodedData w (js ''SGVsbG8'') (js ''base64'') fieldname fileExtension
        = (Failure fieldname (js ''base64'')
             (js ''Failed to process base64 data: Invalid base64 string length''), w)"
proof -
  have 1: "\<not> base64_shaped (strip_whitespace data) \<longrightarrow>
      decode_base64 from64 data = Inl InvalidBase64Format
      \<and> processEncodedData w data (js ''base64'') fieldname fileExtension
          = (Failure fieldname (js ''base64'')
               (js ''Failed to process base64 data: Invalid base64 format''), w)"
    using process_decode_error [of "js ''base64''" data InvalidBase64Format w fieldname fileExtension]
    by (simp add: decode_base64_node decode_base64_cases failure_text_base64)
  have 2: "base64_shaped (strip_whitespace data) \<and> length (strip_whitespace data) mod 4 \<noteq> 0 \<longrightarrow>
      decode_base64 from64 data = Inl InvalidBase64Length
      \<and> processEncodedData w data (js ''base64'') fieldname fileExtension
          = (Failure fieldname (js ''base64'')
               (js ''Failed to process base64 data: Invalid base64 string length''), w)"
    using process_decode_error [of "js ''base64''" data InvalidBase64Length w fieldname fileExtension]
    by (simp add: decode_base64_node decode_base64_cases failure_text_base64)
  have r0: "base64_shaped (strip_whitespace data) \<and> length (strip_whitespace data) mod 4 = 0 \<longrightarrow>
      decode_base64 from64 data = decode_or_retry from64 (strip_whitespace data)"
    by (simp add: decode_base64_retry)
  have r1: "from64 s = Inr b \<longrightarrow> decode_or_retry from64 s = Inr b"
    by (simp add: decode_or_retry_cases)
  have r2: "from64 s = Inl m \<and> from64 (url_safe_substitution s) = Inr b \<longrightarrow>
      decode_or_retry from64 s = Inr b"
    by (simp add: decode_or_retry_cases)
  have r3: "from64 s = Inl m \<and> from64 (url_safe_substitution s) = Inl m' \<longrightarrow>
      decode_or_retry from64 s = Inl (Base64DecodingFailed m)
      \<and> message (Base64DecodingFailed m) = js ''Base64 decoding failed: '' @ m"
    by (simp add: decode_or_retry_cases)
  have 3: "base64_shaped (strip_whitespace data) \<and> length (strip_whitespace data) mod 4 = 0
        \<and> from64 (strip_whitespace data) = Inr b \<longrightarrow>
      decode_base64 from64 data = Inr b"
    by (simp add: decode_base64_cases)
  have 4: "base64_shaped (strip_whitespace data) \<and> length (strip_whitespace data) mod 4 = 0
        \<and> from64 (strip_whitespace data) = Inl m
        \<and> from64 (url_safe_substitution (strip_whitespace data)) = Inl m' \<longrightarrow>
      decode_base64 from64 data = Inl (Base64DecodingFailed m)
      \<and> message (Base64DecodingFailed m) = js ''Base64 decoding failed: '' @ m"
    by (simp add: decode_base64_cases)
  have 5: "base64_shaped (strip_whitespace data) \<and> length (strip_whitespace data) mod 4 = 0 \<longrightarrow>
      url_safe_substitution (strip_whitespace data) = strip_whitespace data
      \<and> decode (js ''base64'') data = Inr (standard_base64 (strip_whitespace data))"
    by (simp add: decode_base64_node decode_base64_cases Buffer_from_base64_standard
        shaped_url_safe)
  have "base64_shaped (strip_whitespace (js ''SGVsbG8''))
      \<and> length (strip_whitespace (js ''SGVsbG8'')) mod 4 \<noteq> 0"
    by (simp add: eval_base64)
  then have "decode (js ''base64'') (js ''SGVsbG8'') = Inl InvalidBase64Length"
    by (simp add: decode_base64_node decode_base64_cases)
  from process_decode_error [OF this]
  have 8: "processEncodedData w (js ''SGVsbG8'') (js ''base64'') fieldname fileExtension
        = (Failure fieldname (js ''base64'')
             (js ''Failed to process base64 data: Invalid base64 string length''), w)"
    by (simp add: failure_text_base64)
  from 1 2 r0 r1 r2 r3 3 4 5 8 decode_base64_node decode_SGVsbG8 show ?thesis by blast
qed

theorem base64_decoding_witness:
  "\<not> base64_shaped (strip_whitespace (js ''SGVs!G8=''))
   \<and> decode_base64 Buffer_from_base64 (js ''SGVs!G8='') = Inl InvalidBase64Format
   \<and> base64_shaped (strip_whitespace (js ''SGVsbG8''))
   \<and> length (strip_whitespace (js ''SGVsbG8'')) mod 4 \<noteq> 0
   \<and> decode_base64 Buffer_from_base64 (js ''SGVsbG8'') = Inl InvalidBase64Length
   \<and> strip_whitespace (js ''SGVs bG8= '') = js ''SGVsbG8=''
   \<and> base64_shaped (js ''SGVsbG8='') \<and> length (js ''SGVsbG8='') mod 4 = 0
   \<and> Buffer_from_base64 (js ''SGVsbG8='') = Inr (bytes ''Hello'')
   \<and> decode_base64 Buffer_from_base64 (js ''SGVs bG8= '') = Inr (bytes ''Hello'')
   \<and> decode_base64 strict_decoder (js ''SGVs bG8= '') = decode_or_retry strict_decoder (js ''SGVsbG8='')
   \<and> decode_or_retry Buffer_from_base64 (js ''SGVsbG8='') = Inr (bytes ''Hello'')
   \<and> strict_decoder (js ''-_-_'') = Inl (js ''Invalid character'')
   \<and> url_safe_substitution (js ''-_-_'') = js ''+/+/''
   \<and> strict_decoder (js ''+/+/'') = Inr [0xFB, 0xFF, 0xBF]
   \<and> decode_or_retry strict_decoder (js ''-_-_'') = Inr [0xFB, 0xFF, 0xBF]
   \<and> raising_decoder (js ''a-b'') = Inl (js ''Invalid base64: a-b'')
   \<and> raising_decoder (url_safe_substitution (js ''a-b'')) = Inl (js ''Invalid base64: a+b'')
   \<and> decode_or_retry raising_decoder (js ''a-b'')
       = Inl (Base64DecodingFailed (js ''Invalid base64: a-b''))
   \<and> raising_decoder (js ''SGVsbG8='') = Inl (js ''Invalid base64: SGVsbG8='')
   \<and> raising_decoder (url_safe_substitution (js ''SGVsbG8='')) = Inl (js ''Invalid base64: SGVsbG8='')
   \<and> decode_base64 raising_decoder (js ''SGVs bG8= '')
       = Inl (Base64DecodingFailed (js ''Invalid base64: SGVsbG8=''))
   \<and> decode (js ''base64'') (js ''SGVs bG8= '') = Inr (standard_base64 (js ''SGVsbG8=''))"
proof -
  have a: "\<not> base64_shaped (strip_whitespace (js ''SGVs!G8=''))"
    by (simp add: eval_base64)
  have b: "base64_shaped (strip_whitespace (js ''SGVsbG8''))
      \<and> length (strip_whitespace (js ''SGVsbG8'')) mod 4 \<noteq> 0"
    by (simp add: eval_base64)
  have c: "strip_whitespace (js ''SGVs bG8= '') = js ''SGVsbG8=''"
    by (simp add: strip_whitespace_def whitespace_def js_def cu_def)
  have d: "base64_shaped (js ''SGVsbG8='') \<and> length (js ''SGVsbG8='') mod 4 = 0"
    by (simp add: eval_base64)
  have e: "Buffer_from_base64 (js ''SGVsbG8='') = Inr (bytes ''Hello'')"
    by (simp add: Buffer_from_base64_def List.map_filter_simps unbase64_def js_def cu_def
        bytes_def)
  have r: "raising_decoder (js ''a-b'') = Inl (js ''Invalid base64: a-b'')"
    "raising_decoder (url_safe_substitution (js ''a-b'')) = Inl (js ''Invalid base64: a+b'')"
    "raising_decoder (js ''SGVsbG8='') = Inl (js ''Invalid base64: SGVsbG8='')"
    by (simp_all add: raising_decoder_def retry_examples) (simp_all add: js_def)
  have u: "url_safe_substitution (js ''SGVsbG8='') = js ''SGVsbG8=''"
    using d by (simp add: shaped_url_safe)
  have d': "base64_shaped (strip_whitespace (js ''SGVs bG8= ''))
      \<and> length (strip_whitespace (js ''SGVs bG8= '')) mod 4 = 0"
    using d by (simp only: c)
  have e': "Buffer_from_base64 (strip_whitespace (js ''SGVs bG8= '')) = Inr (bytes ''Hello'')"
    using e by (simp only: c)
  have r': "raising_decoder (strip_whitespace (js ''SGVs bG8= ''))
        = Inl (js ''Invalid base64: SGVsbG8='')"
    "raising_decoder (url_safe_substitution (strip_whitespace (js ''SGVs bG8= '')))
        = Inl (js ''Invalid base64: SGVsbG8='')"
    using r(3) by (simp_all only: c u)
  have 1: "decode_base64 Buffer_from_base64 (js ''SGVs!G8='') = Inl InvalidBase64Format"
    using base64_decoding [of "js ''SGVs!G8=''" Buffer_from_base64 example_world "[]" None
        "[]" "[]" "[]" "[]"] a
    by blast
  have 2: "decode_base64 Buffer_from_base64 (js ''SGVsbG8'') = Inl InvalidBase64Length"
    using base64_decoding [of "js ''SGVsbG8''" Buffer_from_base64 example_world "[]" None
        "[]" "[]" "[]" "[]"] b
    by blast
  have 3: "decode_base64 Buffer_from_base64 (js ''SGVs bG8= '') = Inr (bytes ''Hello'')"
    using base64_decoding [of "js ''SGVs bG8= ''" Buffer_from_base64 example_world "[]" None
        "[]" "bytes ''Hello''" "[]" "[]"] d' e'
    by blast
  have "decode_base64 strict_decoder (js ''SGVs bG8= '')
      = decode_or_retry strict_decoder (strip_whitespace (js ''SGVs bG8= ''))"
    using base64_decoding [of "js ''SGVs bG8= ''" strict_decoder example_world "[]" None
        "[]" "[]" "[]" "[]"] d'
    by blast
  then have 4: "decode_base64 strict_decoder (js ''SGVs bG8= '')
      = decode_or_retry strict_decoder (js ''SGVsbG8='')"
    by (simp only: c)
  have 5: "decode_or_retry Buffer_from_base64 (js ''SGVsbG8='') = Inr (bytes ''Hello'')"
    using base64_decoding [of "[]" Buffer_from_base64 example_world "[]" None
        "js ''SGVsbG8=''" "bytes ''Hello''" "[]" "[]"] e
    by blast
  have s1: "strict_decoder (js ''-_-_'') = Inl (js ''Invalid character'')"
    and s2: "strict_decoder (url_safe_substitution (js ''-_-_'')) = Inr [0xFB, 0xFF, 0xBF]"
    by (simp_all only: retry_examples)
  have 6: "decode_or_retry strict_decoder (js ''-_-_'') = Inr [0xFB, 0xFF, 0xBF]"
    using base64_decoding [of "[]" strict_decoder example_world "[]" None
        "js ''-_-_''" "[0xFB, 0xFF, 0xBF]" "js ''Invalid character''" "[]"] s1 s2
    by blast
  have 7: "decode_or_retry raising_decoder (js ''a-b'')
       = Inl (Base64DecodingFailed (js ''Invalid base64: a-b''))"
    using base64_decoding [of "[]" raising_decoder example_world "[]" None
        "js ''a-b''" "[]" "js ''Invalid base64: a-b''" "js ''Invalid base64: a+b''"] r(1,2)
    by blast
  have 8: "decode_base64 raising_decoder (js ''SGVs bG8= '')
       = Inl (Base64DecodingFailed (js ''Invalid base64: SGVsbG8=''))"
    using base64_decoding [of "js ''SGVs bG8= ''" raising_decoder example_world "[]" None
        "[]" "[]" "js ''Invalid base64: SGVsbG8=''" "js ''Invalid base64: SGVsbG8=''"] d' r'
    by blast
  have "decode (js ''base64'') (js ''SGVs bG8= '')
      = Inr (standard_base64 (strip_whitespace (js ''SGVs bG8= '')))"
    using base64_decoding [of "js ''SGVs bG8= ''" Buffer_from_base64 example_world "[]" None
        "[]" "[]" "[]" "[]"] d'
    by blast
  then have 9: "decode (js ''base64'') (js ''SGVs bG8= '') = Inr (standard_base64 (js ''SGVsbG8=''))"
    by (simp only: c)
  have u2: "raising_decoder (url_safe_substitution (js ''SGVsbG8=''))
      = Inl (js ''Invalid base64: SGVsbG8='')"
    using r(3) by (simp only: u)
  from a b c d e r u2 1 2 3 4 5 6 7 8 9 retry_examples(1,2,3) show ?thesis
    by (intro conjI) (simp_all only: simp_thms)
qed

section \<open>Decoding the text of a buffer\<close>

lemma latin1_roundtrip: "Buffer_from_latin1 (toString_latin1 b) = b"
  by (induction b) (simp_all add: Buffer_from_latin1_def toString_latin1_def ucast_up_ucast_id is_up)

lemma utf16_unit_bytes:
  "ucast (utf16_unit lo hi) = lo" "ucast (drop_bit 8 (utf16_unit lo hi)) = hi"
  unfolding utf16_unit_def
  by (rule bit_word_eqI; auto simp: bit_simps dest: bit_imp_le_length)+

lemma utf16le_roundtrip:
  "even (length b) \<Longrightarrow> Buffer_from_utf16le (toString_utf16le b) = b"
  by (induction b rule: toString_utf16le.induct)
    (simp_all add: Buffer_from_utf16le_def utf16_unit_bytes)

lemma hex_digit_value:
  assumes "k < 16"
  shows "js ''0123456789abcdef'' ! k \<in> hex_digits"
    and "hex_value (js ''0123456789abcdef'' ! k) = k"
proof -
  from assms have "k \<in> {0, 1, 2, 3, 4, 5, 6, 7} \<or> k \<in> {8, 9, 10, 11, 12, 13, 14, 15}"
    by (simp only: insert_iff empty_iff) arith
  then show "js ''0123456789abcdef'' ! k \<in> hex_digits"
    and "hex_value (js ''0123456789abcdef'' ! k) = k"
    by (elim disjE insertE emptyE;
        simp add: hex_digits_def hex_value_def hex_table_def js_def cu_def)+
qed

lemma byte_nibbles:
  fixes x :: byte
  shows "unat x div 16 < 16" "unat x mod 16 < 16" "of_nat (16 * (unat x div 16) + unat x mod 16) = x"
proof -
  have "unat x < 256" using unsigned_less [of x] by simp
  then show "unat x div 16 < 16" by simp
  show "unat x mod 16 < 16" by simp
  have "16 * (unat x div 16) + unat x mod 16 = unat x" by simp
  then have "of_nat (16 * (unat x div 16) + unat x mod 16) = (of_nat (unat x) :: byte)"
    by (simp only:)
  then show "of_nat (16 * (unat x div 16) + unat x mod 16) = x" by simp
qed

lemma toString_hex_digits: "set (toString_hex b) \<subseteq> hex_digits"
  by (induction b) (simp_all add: toString_hex_def hex_digit_value byte_nibbles)

lemma hex_pairs_toString: "hex_pairs (toString_hex b) = b"
proof (induction b)
  case Nil
  show ?case by (simp add: toString_hex_def)
next
  case (Cons x b)
  have "hex_pairs (toString_hex (x # b))
      = of_nat (16 * (unat x div 16) + unat x mod 16) # hex_pairs (toString_hex b)"
    by (simp add: toString_hex_def hex_digit_value byte_nibbles del: of_nat_add of_nat_mult)
  with Cons show ?case by (simp only: byte_nibbles)
qed

lemma hex_roundtrip: "b \<noteq> [] \<Longrightarrow> decode (js ''hex'') (toString_hex b) = Inr b"
proof -
  assume "b \<noteq> []"
  then have "toString_hex b \<noteq> []" by (cases b) (simp_all add: toString_hex_def)
  then show ?thesis by (simp add: decode_hex toString_hex_digits hex_pairs_toString)
qed

lemma length_base64_chars: "length base64_chars = 64"
  by (simp add: base64_chars_def js_def)

lemma distinct_base64_chars: "distinct base64_chars"
  by (simp add: base64_chars_def js_def cu_def)

lemma b64_in_chars: "i < 64 \<Longrightarrow> b64 i \<in> set base64_chars"
  by (simp add: b64_def length_base64_chars)

lemma base64_value_b64: "i < 64 \<Longrightarrow> base64_value (b64 i) = i"
  using map_of_zip_nth [of base64_chars "[0 ..< 64]" i]
  by (simp add: base64_value_def b64_def length_base64_chars distinct_base64_chars)

lemma b64_not_equals: "i < 64 \<Longrightarrow> b64 i \<noteq> cu CHR ''=''"
  using b64_in_chars equals_not_base64 by metis

lemma byte_bound: "unat (x :: byte) < 256"
  using unsigned_less [of x] by simp

lemma sextet_bounds:
  fixes x y z :: byte
  shows "unat x div 4 < 64" "unat x mod 4 * 16 + unat y div 16 < 64"
    "unat y mod 16 * 4 + unat z div 64 < 64" "unat z mod 64 < 64"
    "unat y mod 16 * 4 < 64" "unat x mod 4 * 16 < 64"
  using byte_bound [of x] byte_bound [of y] byte_bound [of z] by simp_all

lemma of_nat_byte: "n = unat (x :: byte) \<Longrightarrow> of_nat n = x"
  by simp

lemma sextets_to_nat:
  fixes x y z :: nat
  assumes "y < 256" and "z < 256"
  shows "x div 4 * 4 + (x mod 4 * 16 + y div 16) div 16 = x"
    and "(x mod 4 * 16 + y div 16) mod 16 * 16 + (y mod 16 * 4 + z div 64) div 4 = y"
    and "(y mod 16 * 4 + z div 64) mod 4 * 64 + z mod 64 = z"
    and "(x mod 4 * 16 + y div 16) mod 16 * 16 + y mod 16 * 4 div 4 = y"
    and "x div 4 * 4 + x mod 4 * 16 div 16 = x"
proof -
  from assms have q: "y div 16 < 16" and s: "z div 64 < 4" by simp_all
  show "x div 4 * 4 + (x mod 4 * 16 + y div 16) div 16 = x" using q by simp
  show "(x mod 4 * 16 + y div 16) mod 16 * 16 + (y mod 16 * 4 + z div 64) div 4 = y"
    using q s by simp
  show "(y mod 16 * 4 + z div 64) mod 4 * 64 + z mod 64 = z" using s by simp
  show "(x mod 4 * 16 + y div 16) mod 16 * 16 + y mod 16 * 4 div 4 = y" using q by simp
  show "x div 4 * 4 + x mod 4 * 16 div 16 = x" by simp
qed

lemma sextets_to_bytes:
  fixes x y z :: byte
  shows "of_nat (unat x div 4 * 4 + (unat x mod 4 * 16 + unat y div 16) div 16) = x"
    and "of_nat ((unat x mod 4 * 16 + unat y div 16) mod 16 * 16
                  + (unat y mod 16 * 4 + unat z div 64) div 4) = y"
    and "of_nat ((unat y mod 16 * 4 + unat z div 64) mod 4 * 64 + unat z mod 64) = z"
    and "of_nat ((unat x mod 4 * 16 + unat y div 16) mod 16 * 16 + unat y mod 16 * 4 div 4) = y"
    and "of_nat (unat x div 4 * 4 + unat x mod 4 * 16 div 16) = x"
  by (rule of_nat_byte, rule sextets_to_nat, rule byte_bound, rule byte_bound)+

lemma standard_base64_group:
  assumes "c1 \<in> set base64_chars" "c2 \<in> set base64_chars" "c3 \<in> set base64_chars"
    "c4 \<in> set base64_chars"
  shows "standard_base64 (c1 # c2 # c3 # c4 # s) =
     of_nat (base64_value c1 * 4 + base64_value c2 div 16)
       # of_nat (base64_value c2 mod 16 * 16 + base64_value c3 div 4)
       # of_nat (base64_value c3 mod 4 * 64 + base64_value c4) # standard_base64 s"
proof -
  from assms equals_not_base64 have "c1 \<noteq> cu CHR ''=''" "c2 \<noteq> cu CHR ''=''"
    "c3 \<noteq> cu CHR ''=''" "c4 \<noteq> cu CHR ''=''" by blast+
  then show ?thesis by (simp add: standard_base64_pack del: of_nat_add of_nat_mult)
qed

lemma standard_base64_three:
  "standard_base64 (b64 (unat x div 4) # b64 (unat x mod 4 * 16 + unat y div 16)
       # b64 (unat y mod 16 * 4 + unat z div 64) # b64 (unat z mod 64) # s)
     = x # y # z # standard_base64 s"
  by (simp only: standard_base64_group [OF b64_in_chars b64_in_chars b64_in_chars b64_in_chars]
      sextet_bounds base64_value_b64 sextets_to_bytes)

lemma standard_base64_two:
  "standard_base64 [b64 (unat x div 4), b64 (unat x mod 4 * 16 + unat y div 16),
       b64 (unat y mod 16 * 4), cu CHR ''=''] = [x, y]"
proof -
  have "standard_base64 [b64 (unat x div 4), b64 (unat x mod 4 * 16 + unat y div 16),
       b64 (unat y mod 16 * 4), cu CHR ''='']
     = [of_nat (base64_value (b64 (unat x div 4)) * 4
                 + base64_value (b64 (unat x mod 4 * 16 + unat y div 16)) div 16),
        of_nat (base64_value (b64 (unat x mod 4 * 16 + unat y div 16)) mod 16 * 16
                 + base64_value (b64 (unat y mod 16 * 4)) div 4)]"
    by (simp add: standard_base64_pack b64_not_equals sextet_bounds del: of_nat_add of_nat_mult)
  then show ?thesis
    by (simp only: sextet_bounds base64_value_b64 sextets_to_bytes)
qed

lemma standard_base64_one:
  "standard_base64 [b64 (unat x div 4), b64 (unat x mod 4 * 16), cu CHR ''='', cu CHR ''='']
     = [x]"
proof -
  have "standard_base64 [b64 (unat x div 4), b64 (unat x mod 4 * 16), cu CHR ''='', cu CHR ''='']
     = [of_nat (base64_value (b64 (unat x div 4)) * 4
                 + base64_value (b64 (unat x mod 4 * 16)) div 16)]"
    by (simp add: standard_base64_pack b64_not_equals sextet_bounds del: of_nat_add of_nat_mult)
  then show ?thesis
    by (simp only: sextet_bounds base64_value_b64 sextets_to_bytes)
qed

lemma standard_base64_toString: "standard_base64 (toString_base64 b) = b"
proof (induction b rule: toString_base64.induct)
  case (1 x y z rest)
  then show ?case by (simp add: standard_base64_three)
next
  case (2 x y)
  show ?case by (simp add: standard_base64_two)
next
  case (3 x)
  show ?case by (simp add: standard_base64_one)
next
  case 4
  show ?case by (simp add: standard_base64_pack)
qed

lemma base64_shaped_cons:
  assumes "c \<in> set base64_chars" and "base64_shaped s"
  shows "base64_shaped (c # s)"
proof -
  from assms(2) obtain body pad where "s = body @ pad" "set body \<subseteq> set base64_chars"
    "pad = [] \<or> pad = js ''='' \<or> pad = js ''==''"
    unfolding base64_shaped_def by blast
  with assms(1) have "c # s = (c # body) @ pad \<and> set (c # body) \<subseteq> set base64_chars
      \<and> (pad = [] \<or> pad = js ''='' \<or> pad = js ''=='')" by simp
  then show ?thesis unfolding base64_shaped_def by blast
qed

lemma base64_shaped_pad: "base64_shaped []" "base64_shaped [cu CHR ''='']"
  "base64_shaped [cu CHR ''='', cu CHR ''='']"
  unfolding base64_shaped_def
  by (rule exI [of _ "[]"]; simp add: js_def)+

lemma toString_base64_shaped: "base64_shaped (toString_base64 b)"
  by (induction b rule: toString_base64.induct)
    (simp_all add: base64_shaped_cons base64_shaped_pad b64_in_chars sextet_bounds)

lemma length_toString_base64: "length (toString_base64 b) mod 4 = 0"
  by (induction b rule: toString_base64.induct) simp_all

lemma base64_class_not_space: "in_class base64_class c \<Longrightarrow> \<not> in_class space_class c"
  by (auto simp: base64_class_def space_class_def cu_def word_le_nat_alt)

lemma shaped_no_whitespace:
  assumes "base64_shaped s"
  shows "strip_whitespace s = s"
proof -
  from assms obtain body pad where s: "s = body @ pad" "set body \<subseteq> set base64_chars"
    "pad = [] \<or> pad = js ''='' \<or> pad = js ''==''"
    unfolding base64_shaped_def by blast
  have "\<forall>c \<in> set body. c \<notin> whitespace"
    using s(2) base64_class_not_space by (auto simp: in_base64_class in_space_class)
  moreover have "\<forall>c \<in> set pad. c \<notin> whitespace"
    using s(3) by (auto simp: whitespace_def js_def cu_def)
  ultimately show ?thesis using s(1) by (simp add: strip_whitespace_def)
qed

lemma base64_roundtrip: "decode (js ''base64'') (toString_base64 b) = Inr b"
  by (simp add: decode_base64_node decode_base64_cases shaped_no_whitespace
      toString_base64_shaped length_toString_base64 Buffer_from_base64_standard
      standard_base64_toString)

lemma Buffer_from_utf8_single:
  "\<not> is_high_surrogate c \<Longrightarrow> Buffer_from_utf8 (c # t) = utf8_unit c @ Buffer_from_utf8 t"
  by (cases t) simp_all

lemma Buffer_from_utf8_pair:
  "is_high_surrogate c \<Longrightarrow> is_low_surrogate d \<Longrightarrow>
   Buffer_from_utf8 (c # d # t)
     = utf8_bytes (0x10000 + (unat c - 0xD800) * 1024 + (unat d - 0xDC00)) @ Buffer_from_utf8 t"
  by simp

lemma unat_unit16: "n < 65536 \<Longrightarrow> unat (of_nat n :: unit16) = n"
  by (simp add: unat_of_nat)

lemma surrogate_of_nat:
  assumes "n < 65536"
  shows "is_high_surrogate (of_nat n) \<longleftrightarrow> 0xD800 \<le> n \<and> n \<le> 0xDBFF"
    and "is_low_surrogate (of_nat n) \<longleftrightarrow> 0xDC00 \<le> n \<and> n \<le> 0xDFFF"
  using assms
  by (simp_all add: is_high_surrogate_def is_low_surrogate_def word_le_nat_alt unat_unit16)

lemma utf8_bytes_2:
  assumes "2 \<le> a" "a < 32" "b < 64"
  shows "utf8_bytes (a * 64 + b) = [of_nat (192 + a), of_nat (128 + b)]"
proof -
  from assms have "128 \<le> a * 64 + b" "a * 64 + b < 2048" by simp_all
  moreover from assms have "(a * 64 + b) div 64 = a" "(a * 64 + b) mod 64 = b" by simp_all
  ultimately show ?thesis by (simp add: utf8_bytes_def del: of_nat_add of_nat_mult)
qed

lemma utf8_bytes_3:
  assumes "a < 16" "b < 64" "c < 64" "2048 \<le> a * 4096 + b * 64 + c"
  shows "utf8_bytes (a * 4096 + b * 64 + c) = [of_nat (224 + a), of_nat (128 + b), of_nat (128 + c)]"
proof -
  from assms have "a * 4096 + b * 64 + c < 65536" by simp
  moreover from assms have "(a * 4096 + b * 64 + c) div 4096 = a"
    "(a * 4096 + b * 64 + c) div 64 = a * 64 + b"
    by simp_all
  moreover have "(a * 4096 + b * 64 + c) mod 64 = c"
  proof -
    have "a * 4096 + b * 64 + c = (a * 64 + b) * 64 + c" by simp
    then show ?thesis using assms(3) by (simp only: mod_mult_self3 mod_less)
  qed
  moreover from assms have "(a * 64 + b) mod 64 = b" by simp
  ultimately show ?thesis using assms(4)
    by (simp add: utf8_bytes_def del: of_nat_add of_nat_mult)
qed

lemma utf8_bytes_4:
  assumes "a < 8" "b < 64" "c < 64" "d < 64" "65536 \<le> a * 262144 + b * 4096 + c * 64 + d"
  shows "utf8_bytes (a * 262144 + b * 4096 + c * 64 + d)
           = [of_nat (240 + a), of_nat (128 + b), of_nat (128 + c), of_nat (128 + d)]"
proof -
  from assms have "(a * 262144 + b * 4096 + c * 64 + d) div 262144 = a"
    "(a * 262144 + b * 4096 + c * 64 + d) div 4096 = a * 64 + b"
    "(a * 262144 + b * 4096 + c * 64 + d) div 64 = a * 4096 + b * 64 + c"
    by simp_all
  moreover have "(a * 262144 + b * 4096 + c * 64 + d) mod 64 = d"
  proof -
    have "a * 262144 + b * 4096 + c * 64 + d = (a * 4096 + b * 64 + c) * 64 + d" by simp
    then show ?thesis using assms(4) by (simp only: mod_mult_self3 mod_less)
  qed
  moreover have "(a * 4096 + b * 64 + c) mod 64 = c"
  proof -
    have "a * 4096 + b * 64 + c = (a * 64 + b) * 64 + c" by simp
    then show ?thesis using assms(3) by (simp only: mod_mult_self3 mod_less)
  qed
  moreover from assms have "(a * 64 + b) mod 64 = b" by simp
  ultimately show ?thesis using assms(5)
    by (simp add: utf8_bytes_def del: of_nat_add of_nat_mult)
qed

lemma byte_offset: "k \<le> unat (b :: byte) \<Longrightarrow> of_nat (k + (unat b - k)) = b"
  by simp

lemma continuation_nat: "is_continuation b \<longleftrightarrow> 128 \<le> unat b \<and> unat b \<le> 191"
  by (simp add: is_continuation_def word_le_nat_alt)

lemma seq1:
  assumes "b0 < 0x80"
  shows "\<not> is_high_surrogate (ucast b0)" and "utf8_unit (ucast b0) = [b0]"
proof -
  from assms have u: "unat b0 < 128" by (simp add: word_less_nat_alt)
  have c: "(ucast b0 :: unit16) = of_nat (unat b0)" by simp
  from u have n: "unat b0 < 65536" by simp
  show "\<not> is_high_surrogate (ucast b0)"
    unfolding c using u by (simp only: surrogate_of_nat [OF n]) simp
  have "utf8_unit (of_nat (unat b0)) = [of_nat (unat b0)]"
    using u by (simp only: utf8_unit_def surrogate_of_nat [OF n] unat_unit16 [OF n])
      (simp add: utf8_bytes_def)
  then show "utf8_unit (ucast b0) = [b0]" by simp
qed

lemma seq2:
  assumes "0xC2 \<le> b0" "b0 \<le> 0xDF" "is_continuation b1"
  shows "\<not> is_high_surrogate (of_nat (cp2 b0 b1))"
    and "utf8_unit (of_nat (cp2 b0 b1)) = [b0, b1]"
proof -
  from assms have u: "194 \<le> unat b0" "unat b0 \<le> 223" "128 \<le> unat b1" "unat b1 \<le> 191"
    by (simp_all add: word_le_nat_alt continuation_nat)
  define a b where "a = unat b0 - 192" and "b = unat b1 - 128"
  with u have ab: "2 \<le> a" "a < 32" "b < 64" by simp_all
  have cp: "cp2 b0 b1 = a * 64 + b" by (simp add: cp2_def a_def b_def)
  from ab have n: "a * 64 + b < 65536" and lo: "a * 64 + b < 55296" by simp_all
  show "\<not> is_high_surrogate (of_nat (cp2 b0 b1))"
    unfolding cp using lo by (simp only: surrogate_of_nat [OF n]) simp
  have "utf8_unit (of_nat (a * 64 + b)) = utf8_bytes (a * 64 + b)"
    using lo by (simp only: utf8_unit_def surrogate_of_nat [OF n] unat_unit16 [OF n]) simp
  also have "\<dots> = [of_nat (192 + a), of_nat (128 + b)]" by (rule utf8_bytes_2 [OF ab])
  also have "\<dots> = [b0, b1]"
    unfolding a_def b_def using u by (simp only: byte_offset)
  finally show "utf8_unit (of_nat (cp2 b0 b1)) = [b0, b1]" unfolding cp .
qed

lemma seq3:
  assumes "0xE0 \<le> b0" "b0 \<le> 0xEF" "is_continuation b1" "is_continuation b2"
    and "0x800 \<le> cp3 b0 b1 b2" and "\<not> (0xD800 \<le> cp3 b0 b1 b2 \<and> cp3 b0 b1 b2 \<le> 0xDFFF)"
  shows "\<not> is_high_surrogate (of_nat (cp3 b0 b1 b2))"
    and "utf8_unit (of_nat (cp3 b0 b1 b2)) = [b0, b1, b2]"
proof -
  from assms have u: "224 \<le> unat b0" "unat b0 \<le> 239" "128 \<le> unat b1" "unat b1 \<le> 191"
    "128 \<le> unat b2" "unat b2 \<le> 191"
    by (simp_all add: word_le_nat_alt continuation_nat)
  define a b c where "a = unat b0 - 224" and "b = unat b1 - 128" and "c = unat b2 - 128"
  with u have abc: "a < 16" "b < 64" "c < 64" by simp_all
  have cp: "cp3 b0 b1 b2 = a * 4096 + b * 64 + c" by (simp add: cp3_def a_def b_def c_def)
  from abc have n: "a * 4096 + b * 64 + c < 65536" by simp
  from assms(5) have big: "2048 \<le> a * 4096 + b * 64 + c" unfolding cp by simp
  from assms(6) have ns: "\<not> (55296 \<le> a * 4096 + b * 64 + c \<and> a * 4096 + b * 64 + c \<le> 57343)"
    unfolding cp by simp
  then have nh: "\<not> (55296 \<le> a * 4096 + b * 64 + c \<and> a * 4096 + b * 64 + c \<le> 56319)"
    and nl: "\<not> (56320 \<le> a * 4096 + b * 64 + c \<and> a * 4096 + b * 64 + c \<le> 57343)"
    by arith+
  show "\<not> is_high_surrogate (of_nat (cp3 b0 b1 b2))"
    unfolding cp using nh by (simp only: surrogate_of_nat [OF n]) simp
  have "utf8_unit (of_nat (a * 4096 + b * 64 + c)) = utf8_bytes (a * 4096 + b * 64 + c)"
    using nh nl by (simp only: utf8_unit_def surrogate_of_nat [OF n] unat_unit16 [OF n]) simp
  also have "\<dots> = [of_nat (224 + a), of_nat (128 + b), of_nat (128 + c)]"
    by (rule utf8_bytes_3 [OF abc big])
  also have "\<dots> = [b0, b1, b2]"
    unfolding a_def b_def c_def using u by (simp only: byte_offset)
  finally show "utf8_unit (of_nat (cp3 b0 b1 b2)) = [b0, b1, b2]" unfolding cp .
qed

lemma seq4:
  assumes "0xF0 \<le> b0" "b0 \<le> 0xF4" "is_continuation b1" "is_continuation b2"
    "is_continuation b3"
    and "0x10000 \<le> cp4 b0 b1 b2 b3" and "cp4 b0 b1 b2 b3 \<le> 0x10FFFF"
  defines "hi \<equiv> of_nat (0xD800 + (cp4 b0 b1 b2 b3 - 0x10000) div 1024) :: unit16"
    and "lo \<equiv> of_nat (0xDC00 + (cp4 b0 b1 b2 b3 - 0x10000) mod 1024) :: unit16"
  shows "is_high_surrogate hi" and "is_low_surrogate lo"
    and "utf8_bytes (0x10000 + (unat hi - 0xD800) * 1024 + (unat lo - 0xDC00)) = [b0, b1, b2, b3]"
proof -
  from assms(1-5) have u: "240 \<le> unat b0" "unat b0 \<le> 244" "128 \<le> unat b1" "unat b1 \<le> 191"
    "128 \<le> unat b2" "unat b2 \<le> 191" "128 \<le> unat b3" "unat b3 \<le> 191"
    by (simp_all add: word_le_nat_alt continuation_nat)
  define a b c d where "a = unat b0 - 240" and "b = unat b1 - 128" and "c = unat b2 - 128"
    and "d = unat b3 - 128"
  with u have abcd: "a < 8" "b < 64" "c < 64" "d < 64" by simp_all
  define n where "n = a * 262144 + b * 4096 + c * 64 + d"
  have cp: "cp4 b0 b1 b2 b3 = n" by (simp add: cp4_def a_def b_def c_def d_def n_def)
  from assms(6,7) have range: "65536 \<le> n" "n \<le> 1114111" unfolding cp by simp_all
  define v where "v = n - 65536"
  from range have v: "v < 1048576" "n = 65536 + v" by (simp_all add: v_def)
  then have q: "v div 1024 < 1024" by simp
  have r: "v mod 1024 < 1024" by simp
  have hn: "55296 + v div 1024 < 65536" and ln: "56320 + v mod 1024 < 65536"
    using q r by simp_all
  have hi: "hi = of_nat (55296 + v div 1024)" and lo: "lo = of_nat (56320 + v mod 1024)"
    by (simp_all add: hi_def lo_def cp v_def)
  show "is_high_surrogate hi" unfolding hi using q by (simp only: surrogate_of_nat [OF hn]) simp
  show "is_low_surrogate lo" unfolding lo using r by (simp only: surrogate_of_nat [OF ln]) simp
  have "65536 + (unat hi - 55296) * 1024 + (unat lo - 56320) = 65536 + (v div 1024 * 1024 + v mod 1024)"
    unfolding hi lo by (simp only: unat_unit16 [OF hn] unat_unit16 [OF ln])
  also have "\<dots> = n" using v(2) by simp
  finally have cpn: "0x10000 + (unat hi - 0xD800) * 1024 + (unat lo - 0xDC00) = n" by simp
  have "utf8_bytes n = [of_nat (240 + a), of_nat (128 + b), of_nat (128 + c), of_nat (128 + d)]"
    unfolding n_def using abcd range(1) [unfolded n_def] by (rule utf8_bytes_4)
  also have "\<dots> = [b0, b1, b2, b3]"
    unfolding a_def b_def c_def d_def using u by (simp only: byte_offset)
  finally show "utf8_bytes (0x10000 + (unat hi - 0xD800) * 1024 + (unat lo - 0xDC00))
      = [b0, b1, b2, b3]"
    by (simp only: cpn)
qed

lemma utf8_text_Cons:
  assumes "utf8_text (b0 # bs) = Some t"
  obtains (one) t' where "b0 < 0x80" "t = ucast b0 # t'" "utf8_text bs = Some t'"
  | (two) b1 r t' where "0xC2 \<le> b0" "b0 \<le> 0xDF" "bs = b1 # r" "is_continuation b1"
      "t = of_nat (cp2 b0 b1) # t'" "utf8_text r = Some t'"
  | (three) b1 b2 r t' where "0xE0 \<le> b0" "b0 \<le> 0xEF" "bs = b1 # b2 # r"
      "is_continuation b1" "is_continuation b2" "0x800 \<le> cp3 b0 b1 b2"
      "\<not> (0xD800 \<le> cp3 b0 b1 b2 \<and> cp3 b0 b1 b2 \<le> 0xDFFF)"
      "t = of_nat (cp3 b0 b1 b2) # t'" "utf8_text r = Some t'"
  | (four) b1 b2 b3 r t' where "0xF0 \<le> b0" "b0 \<le> 0xF4" "bs = b1 # b2 # b3 # r"
      "is_continuation b1" "is_continuation b2" "is_continuation b3"
      "0x10000 \<le> cp4 b0 b1 b2 b3" "cp4 b0 b1 b2 b3 \<le> 0x10FFFF"
      "t = of_nat (0xD800 + (cp4 b0 b1 b2 b3 - 0x10000) div 1024)
             # of_nat (0xDC00 + (cp4 b0 b1 b2 b3 - 0x10000) mod 1024) # t'"
      "utf8_text r = Some t'"
  using assms by (auto split: if_splits list.splits)

lemma utf8_roundtrip: "utf8_text b = Some t \<Longrightarrow> Buffer_from_utf8 t = b"
proof (induction "length b" arbitrary: b t rule: less_induct)
  case less
  show ?case
  proof (cases b)
    case Nil
    with less.prems show ?thesis by simp
  next
    case (Cons b0 bs)
    with less.prems have "utf8_text (b0 # bs) = Some t" by simp
    then show ?thesis
    proof (cases rule: utf8_text_Cons)
      case (one t')
      with less.hyps [of bs t'] Cons have "Buffer_from_utf8 t' = bs" by simp
      with one Cons show ?thesis by (simp add: Buffer_from_utf8_single seq1)
    next
      case (two b1 r t')
      with less.hyps [of r t'] Cons have "Buffer_from_utf8 t' = r" by simp
      with two Cons show ?thesis
        by (simp add: Buffer_from_utf8_single seq2 del: of_nat_add of_nat_mult)
    next
      case (three b1 b2 r t')
      with less.hyps [of r t'] Cons have "Buffer_from_utf8 t' = r" by simp
      with three Cons show ?thesis
        by (simp add: Buffer_from_utf8_single seq3 del: of_nat_add of_nat_mult)
    next
      case (four b1 b2 b3 r t')
      with less.hyps [of r t'] Cons have rest: "Buffer_from_utf8 t' = r" by simp
      note s = seq4 [OF four(1,2,4,5,6,7,8)]
      from four(9) rest Cons four(3) show ?thesis
        by (simp only: Buffer_from_utf8_pair [OF s(1,2)] s(3)) simp
    qed
  qed
qed

lemma seven_bits: "x \<le> 0x7F \<Longrightarrow> x AND 0x7F = x" for x :: byte
proof -
  assume "x \<le> 0x7F"
  then have "x < 2 ^ 7" by (simp add: word_le_nat_alt word_less_nat_alt)
  then have "x AND mask 7 = x" by (rule less_mask_eq)
  then show ?thesis by (simp add: mask_eq_exp_minus_1)
qed

lemma ascii_roundtrip:
  "list_all (\<lambda>x. x \<le> 0x7F) b \<Longrightarrow> Buffer_from_ascii (toString_ascii b) = b"
  by (induction b)
    (simp_all add: Buffer_from_ascii_def Buffer_from_latin1_def toString_ascii_def seven_bits
      ucast_up_ucast_id is_up)

lemma decode_names:
  "decode (js ''binary'') t = Inr (Buffer_from_latin1 t)"
  "decode (js ''ascii'') t = Inr (Buffer_from_ascii t)"
  "decode (js ''utf8'') t = Inr (Buffer_from_utf8 t)"
  "decode (js ''utf-8'') t = Inr (Buffer_from_utf8 t)"
  "decode (js ''utf-16le'') t = Inr (Buffer_from_utf16le t)"
  "decode (js ''ucs2'') t = Inr (Buffer_from_utf16le t)"
  by (simp_all add: decode_def js_def cu_def)

text \<open>
  C6, as amended. For every supported encoding and every buffer that can be written in
  it, decoding the canonical text of the buffer gives the buffer back, with one
  exception: under \<open>hex\<close> the empty buffer has the empty text, which the validation
  refuses. \<open>binary\<close> is taken over all bytes and \<open>ascii\<close> over the bytes up to 127.
\<close>

theorem roundtrip:
  "text_of encoding b = Some t \<and> \<not> (encoding = js ''hex'' \<and> b = []) \<longrightarrow>
     decode encoding t = Inr b"
proof
  assume a: "text_of encoding b = Some t \<and> \<not> (encoding = js ''hex'' \<and> b = [])"
  then have t: "text_of encoding b = Some t" by simp
  consider (binary) "encoding = js ''binary''" "t = toString_latin1 b"
    | (ascii) "encoding = js ''ascii''" "list_all (\<lambda>x. x \<le> 0x7F) b" "t = toString_ascii b"
    | (utf8) "encoding = js ''utf8'' \<or> encoding = js ''utf-8''" "utf8_text b = Some t"
    | (utf16) "encoding = js ''utf-16le'' \<or> encoding = js ''ucs2''" "even (length b)"
        "t = toString_utf16le b"
    | (hex) "encoding = js ''hex''" "t = toString_hex b"
    | (base64) "encoding = js ''base64''" "t = toString_base64 b"
    using t unfolding text_of_def by (auto split: if_splits)
  then show "decode encoding t = Inr b"
  proof cases
    case binary
    then show ?thesis by (simp add: decode_names latin1_roundtrip)
  next
    case ascii
    then show ?thesis by (simp add: decode_names ascii_roundtrip)
  next
    case utf8
    then show ?thesis by (auto simp: decode_names utf8_roundtrip)
  next
    case utf16
    then show ?thesis by (auto simp: decode_names utf16le_roundtrip)
  next
    case hex
    with a have "b \<noteq> []" by simp
    with hex show ?thesis by (simp add: hex_roundtrip)
  next
    case base64
    then show ?thesis by (simp add: base64_roundtrip)
  qed
qed

theorem roundtrip_hex_empty_counterexample:
  "text_of (js ''hex'') [] = Some [] \<and> decode (js ''hex'') [] \<noteq> Inr []"
  by (simp add: decode_hex) (simp add: text_of_def toString_hex_def js_def cu_def)

lemma text_of_examples:
  "text_of (js ''utf8'') [0xC3, 0xA9, 0xE2, 0x82, 0xAC, 0xF0, 0x9F, 0x98, 0x80]
     = Some [0xE9, 0x20AC, 0xD83D, 0xDE00]"
  "text_of (js ''base64'') (bytes ''Hello'') = Some (js ''SGVsbG8='')"
  "text_of (js ''hex'') (bytes ''Hello'') = Some (js ''48656c6c6f'')"
  "text_of (js ''ascii'') (bytes ''Hi'') = Some (js ''Hi'')"
  "text_of (js ''utf-16le'') [0x48, 0x00, 0x69, 0x00] = Some (js ''Hi'')"
  "text_of (js ''binary'') [0xFF, 0x00] = Some [0xFF, 0x00]"
  by (simp_all add: text_of_def is_continuation_def cp2_def cp3_def cp4_def
      toString_base64.simps b64_def base64_chars_def toString_hex_def toString_ascii_def
      toString_latin1_def utf16_unit_def bytes_def js_def cu_def)

theorem roundtrip_witness:
  "text_of (js ''utf8'') [0xC3, 0xA9, 0xE2, 0x82, 0xAC, 0xF0, 0x9F, 0x98, 0x80]
     = Some [0xE9, 0x20AC, 0xD83D, 0xDE00]
   \<and> decode (js ''utf8'') [0xE9, 0x20AC, 0xD83D, 0xDE00]
     = Inr [0xC3, 0xA9, 0xE2, 0x82, 0xAC, 0xF0, 0x9F, 0x98, 0x80]
   \<and> text_of (js ''base64'') (bytes ''Hello'') = Some (js ''SGVsbG8='')
   \<and> decode (js ''base64'') (js ''SGVsbG8='') = Inr (bytes ''Hello'')
   \<and> text_of (js ''hex'') (bytes ''Hello'') = Some (js ''48656c6c6f'')
   \<and> bytes ''Hello'' \<noteq> []
   \<and> decode (js ''hex'') (js ''48656c6c6f'') = Inr (bytes ''Hello'')
   \<and> text_of (js ''ascii'') (bytes ''Hi'') = Some (js ''Hi'')
   \<and> decode (js ''ascii'') (js ''Hi'') = Inr (bytes ''Hi'')
   \<and> text_of (js ''utf-16le'') [0x48, 0x00, 0x69, 0x00] = Some (js ''Hi'')
   \<and> decode (js ''utf-16le'') (js ''Hi'') = Inr [0x48, 0x00, 0x69, 0x00]
   \<and> text_of (js ''binary'') [0xFF, 0x00] = Some [0xFF, 0x00]
   \<and> decode (js ''binary'') [0xFF, 0x00] = Inr [0xFF, 0x00]"
proof -
  have ne: "bytes ''Hello'' \<noteq> []" by (simp add: bytes_def)
  have 1: "decode (js ''utf8'') [0xE9, 0x20AC, 0xD83D, 0xDE00]
     = Inr [0xC3, 0xA9, 0xE2, 0x82, 0xAC, 0xF0, 0x9F, 0x98, 0x80]"
    using roundtrip [of "js ''utf8''" "[0xC3, 0xA9, 0xE2, 0x82, 0xAC, 0xF0, 0x9F, 0x98, 0x80]"
        "[0xE9, 0x20AC, 0xD83D, 0xDE00]"] text_of_examples(1)
    by (simp add: js_def cu_def)
  have 2: "decode (js ''base64'') (js ''SGVsbG8='') = Inr (bytes ''Hello'')"
    using roundtrip [of "js ''base64''" "bytes ''Hello''" "js ''SGVsbG8=''"] text_of_examples(2)
    by (simp add: js_def cu_def)
  have 3: "decode (js ''hex'') (js ''48656c6c6f'') = Inr (bytes ''Hello'')"
    using roundtrip [of "js ''hex''" "bytes ''Hello''" "js ''48656c6c6f''"] text_of_examples(3) ne
    by simp
  have 4: "decode (js ''ascii'') (js ''Hi'') = Inr (bytes ''Hi'')"
    using roundtrip [of "js ''ascii''" "bytes ''Hi''" "js ''Hi''"] text_of_examples(4)
    by (simp add: js_def cu_def)
  have 5: "decode (js ''utf-16le'') (js ''Hi'') = Inr [0x48, 0x00, 0x69, 0x00]"
    using roundtrip [of "js ''utf-16le''" "[0x48, 0x00, 0x69, 0x00]" "js ''Hi''"]
      text_of_examples(5)
    by (simp add: js_def cu_def)
  have 6: "decode (js ''binary'') [0xFF, 0x00] = Inr [0xFF, 0x00]"
    using roundtrip [of "js ''binary''" "[0xFF, 0x00]" "[0xFF, 0x00]"] text_of_examples(6)
    by (simp add: js_def cu_def)
  from ne 1 2 3 4 5 6 text_of_examples show ?thesis by simp
qed

end
